theory Spec2Isabelle
  imports Main
begin

section \<open>Strings of the host language\<close>

text \<open>
  A string of the program is a sequence of UTF-16 code units. The model uses \<open>string\<close>
  (a list of 8-bit characters) and reads a character as the code unit of the same
  number, so the strings of the model are the strings whose code units are below 256
  (ASCII and Latin-1). HTTP header names, methods and serialised URLs are ASCII.
  The library functions below follow ECMAScript on that range.
\<close>

definition code :: "char \<Rightarrow> nat" where
  "code c = of_char c"

text \<open>\<^verbatim>\<open>String.prototype.toLowerCase\<close>: the letters A-Z, and the Latin-1 capitals
  U+00C0..U+00DE without the multiplication sign U+00D7, move up by 32.\<close>

definition toLowerChar :: "char \<Rightarrow> char" where
  "toLowerChar c =
     (let n = code c in
      if (65 \<le> n \<and> n \<le> 90) \<or> (192 \<le> n \<and> n \<le> 222 \<and> n \<noteq> 215)
      then char_of (n + 32) else c)"

definition toLowerCase :: "string \<Rightarrow> string" where
  "toLowerCase s = map toLowerChar s"

text \<open>\<^verbatim>\<open>String.prototype.toUpperCase\<close>: a-z and the Latin-1 small letters
  U+00E0..U+00FE without the division sign U+00F7 move down by 32; the sharp s
  U+00DF becomes the two letters SS. The micro sign U+00B5 and y with diaeresis U+00FF
  have capitals above U+00FF, which no other code unit below 256 is mapped to; the
  model leaves these two in place, which keeps every comparison of two upper-cased
  strings as it is in the program.\<close>

definition toUpperChar :: "char \<Rightarrow> string" where
  "toUpperChar c =
     (let n = code c in
      if (97 \<le> n \<and> n \<le> 122) \<or> (224 \<le> n \<and> n \<le> 254 \<and> n \<noteq> 247)
      then [char_of (n - 32)]
      else if n = 223 then ''SS'' else [c])"

definition toUpperCase :: "string \<Rightarrow> string" where
  "toUpperCase s = concat (map toUpperChar s)"

text \<open>\<^verbatim>\<open>startsWith\<close>, \<^verbatim>\<open>endsWith\<close>, \<^verbatim>\<open>includes\<close> (here \<open>includes_str\<close>), \<^verbatim>\<open>substring(n)\<close>.\<close>

fun startsWith :: "string \<Rightarrow> string \<Rightarrow> bool" where
  "startsWith s [] = True"
| "startsWith [] (p # ps) = False"
| "startsWith (c # cs) (p # ps) = (c = p \<and> startsWith cs ps)"

fun includes_str :: "string \<Rightarrow> string \<Rightarrow> bool" where
  "includes_str [] p = (p = [])"
| "includes_str (c # cs) p = (startsWith (c # cs) p \<or> includes_str cs p)"

definition substring :: "string \<Rightarrow> nat \<Rightarrow> string" where
  "substring s n = drop n s"

text \<open>\<^verbatim>\<open>String.prototype.trim\<close> removes white space and line terminators at both ends:
  below 256 these are TAB, LF, VT, FF, CR, SPACE and the no-break space U+00A0.\<close>

definition isWhiteSpace :: "char \<Rightarrow> bool" where
  "isWhiteSpace c = (code c \<in> {9, 10, 11, 12, 13, 32, 160})"

definition trim :: "string \<Rightarrow> string" where
  "trim s = rev (dropWhile isWhiteSpace (rev (dropWhile isWhiteSpace s)))"

text \<open>A regular expression that is a literal, tested with the flag \<open>i\<close> and without
  the flag \<open>u\<close>: it matches when the literal occurs somewhere in the subject, two code
  units being equal when their canonical forms are. The canonical form of a code unit
  is its capital when that is one code unit, except that a code unit from 128 on whose
  capital is below 128 stays as it is; below 256 this is \<open>toUpperChar\<close> with the sharp
  s left in place.\<close>

definition canonicalize :: "char \<Rightarrow> char" where
  "canonicalize c = (case toUpperChar c of [u] \<Rightarrow> u | _ \<Rightarrow> c)"

definition testLiteralIgnoreCase :: "string \<Rightarrow> string \<Rightarrow> bool" where
  "testLiteralIgnoreCase pattern subject =
     includes_str (map canonicalize subject) (map canonicalize pattern)"

section \<open>The authentication classifier (utils/authDetector.ts)\<close>

datatype AuthType = bearer | basic | apikey | cookie | none

record RequestHeader =
  key :: string
  hvalue :: string

text \<open>\<open>AuthInfo\<close>: the field \<open>value\<close> is optional in the source.\<close>

record AuthInfo =
  atype :: AuthType
  avalue :: "string option"

definition sessionPatterns :: "string list" where
  "sessionPatterns =
     [''sessionid='', ''session='', ''sid='', ''connect.sid='', ''PHPSESSID='',
      ''JSESSIONID='', ''ASP.NET_SessionId='']"

definition hasSessionCookie :: "string \<Rightarrow> bool" where
  "hasSessionCookie v = list_ex (\<lambda>pattern. testLiteralIgnoreCase pattern v) sessionPatterns"

definition isApiKeyName :: "string \<Rightarrow> bool" where
  "isApiKeyName name =
     (name = ''x-api-key'' \<or> name = ''api-key'' \<or> name = ''apikey'' \<or>
      includes_str name ''api-key'' \<or> includes_str name ''apikey'')"

fun detectAuthType :: "RequestHeader list \<Rightarrow> AuthInfo" where
  "detectAuthType [] = \<lparr>atype = none, avalue = None\<rparr>"
| "detectAuthType (header # headers) =
     (let name = toLowerCase (key header); v = hvalue header in
      if name = ''authorization'' \<and> startsWith v ''Bearer ''
      then \<lparr>atype = bearer, avalue = Some (trim (substring v 7))\<rparr>
      else if name = ''authorization'' \<and> startsWith v ''Basic ''
      then \<lparr>atype = basic, avalue = Some (trim (substring v 6))\<rparr>
      else if isApiKeyName name
      then \<lparr>atype = apikey, avalue = Some v\<rparr>
      else if name = ''cookie'' \<and> hasSessionCookie v
      then \<lparr>atype = cookie, avalue = Some v\<rparr>
      else detectAuthType headers)"


text \<open>The rules of the classifier as the specification words them, for one header:
  an \<open>Authorization\<close> header starting with \<open>Bearer \<close>, then one starting with
  \<open>Basic \<close>, then a name containing \<open>api-key\<close> or \<open>apikey\<close>, then a \<open>Cookie\<close> header
  matching a session pattern; \<open>None\<close> when no rule applies to the header.\<close>

definition classifyHeader :: "RequestHeader \<Rightarrow> AuthInfo option" where
  "classifyHeader h =
     (let name = toLowerCase (key h); v = hvalue h in
      if name = ''authorization'' \<and> startsWith v ''Bearer ''
      then Some \<lparr>atype = bearer, avalue = Some (trim (drop 7 v))\<rparr>
      else if name = ''authorization'' \<and> startsWith v ''Basic ''
      then Some \<lparr>atype = basic, avalue = Some (trim (drop 6 v))\<rparr>
      else if includes_str name ''api-key'' \<or> includes_str name ''apikey''
      then Some \<lparr>atype = apikey, avalue = Some v\<rparr>
      else if name = ''cookie'' \<and> (\<exists>p \<in> set sessionPatterns. testLiteralIgnoreCase p v)
      then Some \<lparr>atype = cookie, avalue = Some v\<rparr>
      else None)"

section \<open>URL parsing (the platform's \<open>URL\<close> class)\<close>

text \<open>
  \<^verbatim>\<open>new URL(s)\<close>, with no base, follows the basic URL parser of the WHATWG URL Standard;
  it throws when the parser fails. The program reads two properties of the result,
  \<^verbatim>\<open>pathname\<close> and \<^verbatim>\<open>host\<close>. The parser below follows the states of the standard for
  the parts these two depend on: the scheme, the authority (credentials are skipped
  over), the host and the port, and the path; query and fragment are cut off.
  A parse failure is \<open>None\<close>.

  Hosts are parsed as the standard says: IPv6 literals, IPv4 addresses, opaque hosts
  and ASCII domains, percent-decoded and in lower case. What the model leaves to the
  platform is the Unicode processing of a domain (IDNA): a host of a special scheme
  with a code unit from 128 on, written as such or percent-encoded, is a failure of the
  model, and a label starting with \<open>xn--\<close> is taken as it is, its Punycode unchecked.
\<close>

datatype url_path = OpaquePath string | ListPath "string list"

record URL =
  scheme :: string
  uhost :: "string option"
  port :: "nat option"
  path :: url_path

definition isAsciiDigit :: "char \<Rightarrow> bool" where
  "isAsciiDigit c = (48 \<le> code c \<and> code c \<le> 57)"

definition isAsciiAlpha :: "char \<Rightarrow> bool" where
  "isAsciiAlpha c = ((65 \<le> code c \<and> code c \<le> 90) \<or> (97 \<le> code c \<and> code c \<le> 122))"

definition isAsciiHexDigit :: "char \<Rightarrow> bool" where
  "isAsciiHexDigit c =
     (isAsciiDigit c \<or> (65 \<le> code c \<and> code c \<le> 70) \<or> (97 \<le> code c \<and> code c \<le> 102))"

definition isAsciiAlphanumeric :: "char \<Rightarrow> bool" where
  "isAsciiAlphanumeric c = (isAsciiDigit c \<or> isAsciiAlpha c)"

definition asciiLower :: "char \<Rightarrow> char" where
  "asciiLower c = (if 65 \<le> code c \<and> code c \<le> 90 then char_of (code c + 32) else c)"

subsection \<open>Percent-encoding\<close>

definition percentEncodeByte :: "nat \<Rightarrow> string" where
  "percentEncodeByte b =
     [CHR ''%'', ''0123456789ABCDEF'' ! (b div 16), ''0123456789ABCDEF'' ! (b mod 16)]"

text \<open>The UTF-8 bytes of a code point below 256.\<close>

definition utf8Encode :: "char \<Rightarrow> nat list" where
  "utf8Encode c = (if code c < 128 then [code c] else [192 + code c div 64, 128 + code c mod 64])"

definition utf8PercentEncode :: "(char \<Rightarrow> bool) \<Rightarrow> char \<Rightarrow> string" where
  "utf8PercentEncode inSet c =
     (if inSet c then concat (map percentEncodeByte (utf8Encode c)) else [c])"

text \<open>The C0 control percent-encode set; the query set adds space, the double quote,
  \<open>#\<close>, \<open><\<close> and \<open>>\<close>; the path set adds \<open>?\<close>, \<open>^\<close>, the backquote, \<open>{\<close> and \<open>}\<close>.\<close>

definition inC0ControlSet :: "char \<Rightarrow> bool" where
  "inC0ControlSet c = (code c \<le> 31 \<or> 126 < code c)"

definition inQuerySet :: "char \<Rightarrow> bool" where
  "inQuerySet c = (inC0ControlSet c \<or> code c \<in> {32, 34, 35, 60, 62})"

definition inPathSet :: "char \<Rightarrow> bool" where
  "inPathSet c = (inQuerySet c \<or> code c \<in> {63, 94, 96, 123, 125})"

subsection \<open>Input and scheme\<close>

definition isC0ControlOrSpace :: "char \<Rightarrow> bool" where
  "isC0ControlOrSpace c = (code c \<le> 32)"

definition isTabOrNewline :: "char \<Rightarrow> bool" where
  "isTabOrNewline c = (code c \<in> {9, 10, 13})"

text \<open>Leading and trailing C0 controls and spaces are removed, then every tab and
  newline.\<close>

definition stripInput :: "string \<Rightarrow> string" where
  "stripInput s =
     filter (\<lambda>c. \<not> isTabOrNewline c)
       (rev (dropWhile isC0ControlOrSpace (rev (dropWhile isC0ControlOrSpace s))))"

definition isSchemeChar :: "char \<Rightarrow> bool" where
  "isSchemeChar c = (isAsciiAlphanumeric c \<or> c = CHR ''+'' \<or> c = CHR ''-'' \<or> c = CHR ''.'')"

text \<open>Scheme start state and scheme state: a letter, then letters, digits, \<open>+\<close>, \<open>-\<close>
  and \<open>.\<close> up to a colon; anything else leads to the no scheme state, which fails
  without a base URL.\<close>

definition parseScheme :: "string \<Rightarrow> (string \<times> string) option" where
  "parseScheme s =
     (case s of
        [] \<Rightarrow> None
      | c # cs \<Rightarrow>
          if \<not> isAsciiAlpha c then None
          else (case dropWhile isSchemeChar s of
                  [] \<Rightarrow> None
                | d # rest \<Rightarrow>
                    if d = CHR '':'' then Some (map asciiLower (takeWhile isSchemeChar s), rest)
                    else None))"

definition isSpecial :: "string \<Rightarrow> bool" where
  "isSpecial sch = (sch \<in> set [''ftp'', ''file'', ''http'', ''https'', ''ws'', ''wss''])"

definition defaultPort :: "string \<Rightarrow> nat option" where
  "defaultPort sch =
     (if sch = ''ftp'' then Some 21
      else if sch = ''http'' \<or> sch = ''ws'' then Some 80
      else if sch = ''https'' \<or> sch = ''wss'' then Some 443
      else None)"

subsection \<open>Numbers\<close>

definition digitValue :: "char \<Rightarrow> nat" where
  "digitValue c =
     (if isAsciiDigit c then code c - 48
      else if 97 \<le> code c then code c - 87 else code c - 55)"

definition parseRadix :: "nat \<Rightarrow> string \<Rightarrow> nat option" where
  "parseRadix R s =
     (if list_all (\<lambda>c. isAsciiHexDigit c \<and> digitValue c < R) s
      then Some (foldl (\<lambda>a c. a * R + digitValue c) 0 s)
      else None)"

function decimal :: "nat \<Rightarrow> string" where
  "decimal n =
     (if n < 10 then [''0123456789'' ! n]
      else decimal (n div 10) @ [''0123456789'' ! (n mod 10)])"
  by pat_completeness auto
termination
  by (relation "measure id") auto

declare decimal.simps [simp del]

subsection \<open>Hosts\<close>

definition forbiddenHostCodePoint :: "char \<Rightarrow> bool" where
  "forbiddenHostCodePoint c =
     (code c \<in> {0, 9, 10, 13, 32, 35, 47, 58, 60, 62, 63, 64, 91, 92, 93, 94, 124})"

definition forbiddenDomainCodePoint :: "char \<Rightarrow> bool" where
  "forbiddenDomainCodePoint c =
     (forbiddenHostCodePoint c \<or> code c \<le> 31 \<or> code c = 37 \<or> code c = 127)"

fun splitOn :: "char \<Rightarrow> string \<Rightarrow> string list" where
  "splitOn d [] = [[]]"
| "splitOn d (c # cs) =
     (if c = d then [] # splitOn d cs
      else (case splitOn d cs of [] \<Rightarrow> [[c]] | p # ps \<Rightarrow> (c # p) # ps))"

text \<open>The IPv4 number parser: hexadecimal after \<open>0x\<close>, octal after a leading \<open>0\<close>,
  decimal otherwise.\<close>

definition parseIPv4Number :: "string \<Rightarrow> nat option" where
  "parseIPv4Number s =
     (if s = [] then None
      else if 2 \<le> length s \<and> (startsWith s ''0x'' \<or> startsWith s ''0X'')
      then (if drop 2 s = [] then Some 0 else parseRadix 16 (drop 2 s))
      else if 2 \<le> length s \<and> startsWith s ''0''
      then parseRadix 8 (drop 1 s)
      else parseRadix 10 s)"

definition ipv4Parts :: "string \<Rightarrow> string list" where
  "ipv4Parts s =
     (let parts = splitOn CHR ''.'' s in
      if last parts = [] \<and> 1 < length parts then butlast parts else parts)"

definition endsInANumber :: "string \<Rightarrow> bool" where
  "endsInANumber s =
     (let parts = splitOn CHR ''.'' s in
      if last parts = [] \<and> length parts = 1 then False
      else (let l = last (ipv4Parts s) in
            (l \<noteq> [] \<and> list_all isAsciiDigit l) \<or> parseIPv4Number l \<noteq> None))"

definition serializeIPv4 :: "nat \<Rightarrow> string" where
  "serializeIPv4 a =
     decimal (a div 16777216 mod 256) @ ''.'' @ decimal (a div 65536 mod 256) @ ''.'' @
     decimal (a div 256 mod 256) @ ''.'' @ decimal (a mod 256)"

definition parseIPv4 :: "string \<Rightarrow> string option" where
  "parseIPv4 s =
     (let parts = ipv4Parts s; numbers = map parseIPv4Number parts in
      if 4 < length parts \<or> list_ex (\<lambda>n. n = None) numbers then None
      else (let ns = map the numbers in
            if list_ex (\<lambda>n. 255 < n) (butlast ns) \<or> 256 ^ (5 - length ns) \<le> last ns
            then None
            else Some (serializeIPv4
                   (last ns +
                    sum_list (map (\<lambda>(n, i). n * 256 ^ (3 - i))
                      (zip (butlast ns) [0 ..< length ns - 1]))))))"

subsection \<open>IPv6 literals\<close>

text \<open>The IPv6 parser of the standard. The pieces read so far are a list; a \<open>::\<close>
  takes the place of a piece, which stays zero, and \<open>compress\<close> remembers the number of
  pieces up to it. A piece has at most four hexadecimal digits. When a dot follows the
  digits, the rest of the input is an IPv4 address of four decimal numbers, which gives
  the last two pieces.\<close>

text \<open>One decimal number of the IPv4 part: digits with no leading zero, at most 255.\<close>

definition ipv4Piece :: "string \<Rightarrow> nat option" where
  "ipv4Piece ds =
     (if ds = [] \<or> \<not> list_all isAsciiDigit ds then None
      else if 1 < length ds \<and> hd ds = CHR ''0'' then None
      else (case parseRadix 10 ds of
              None \<Rightarrow> None
            | Some n \<Rightarrow> if 255 < n then None else Some n))"

definition ipv4InIPv6 :: "string \<Rightarrow> (nat \<times> nat) option" where
  "ipv4InIPv6 s =
     (case map ipv4Piece (splitOn CHR ''.'' s) of
        [Some a, Some b, Some c, Some d] \<Rightarrow> Some (a * 256 + b, c * 256 + d)
      | _ \<Rightarrow> None)"

function ipv6Pieces :: "nat list \<Rightarrow> nat option \<Rightarrow> string \<Rightarrow> (nat list \<times> nat option) option" where
  "ipv6Pieces pieces compress s =
     (case s of
        [] \<Rightarrow> Some (pieces, compress)
      | c # cs \<Rightarrow>
          if length pieces = 8 then None
          else if c = CHR '':'' then
            (if compress \<noteq> None then None
             else ipv6Pieces (pieces @ [0]) (Some (length pieces + 1)) cs)
          else
            (let digits = takeWhile isAsciiHexDigit (take 4 s);
                 after = drop (length digits) s
             in case after of
                  [] \<Rightarrow>
                    (case parseRadix 16 digits of
                       None \<Rightarrow> None
                     | Some v \<Rightarrow> Some (pieces @ [v], compress))
                | d # rest \<Rightarrow>
                    if d = CHR ''.'' then
                      (if digits = [] \<or> 6 < length pieces then None
                       else (case ipv4InIPv6 s of
                               None \<Rightarrow> None
                             | Some (p, q) \<Rightarrow> Some (pieces @ [p, q], compress)))
                    else if d = CHR '':'' \<and> digits \<noteq> [] \<and> rest \<noteq> [] then
                      (case parseRadix 16 digits of
                         None \<Rightarrow> None
                       | Some v \<Rightarrow> ipv6Pieces (pieces @ [v]) compress rest)
                    else None))"
  by pat_completeness auto
termination
proof (relation "measure (\<lambda>(pieces, compress, s). length s)")
  show "wf (measure (\<lambda>(pieces, compress, s). length s))"
    by simp
next
  fix pieces :: "nat list" and compress :: "nat option" and s :: string and c cs
  assume "s = c # cs"
  then show "((pieces @ [0], Some (length pieces + 1), cs), (pieces, compress, s))
      \<in> measure (\<lambda>(pieces, compress, s). length s)"
    by simp
next
  fix pieces :: "nat list" and compress :: "nat option" and s :: string
    and digits after :: string and d :: char and rest :: string and v :: nat
  assume "after = drop (length digits) s" and "after = d # rest"
  then have "drop (length digits) s = d # rest"
    by simp
  then have "length (drop (length digits) s) = Suc (length rest)"
    by simp
  then have "length s - length digits = Suc (length rest)"
    by simp
  then show "((pieces @ [v], compress, rest), (pieces, compress, s))
      \<in> measure (\<lambda>(pieces, compress, s). length s)"
    by simp
qed

declare ipv6Pieces.simps [simp del]

text \<open>The pieces after the \<open>::\<close> move to the end, and the gap is filled with zeros.
  Without a \<open>::\<close> there must be eight pieces. A colon at the start must be a \<open>::\<close>.\<close>

definition parseIPv6 :: "string \<Rightarrow> nat list option" where
  "parseIPv6 s =
     (case (if startsWith s '':''
            then (if startsWith s ''::'' then ipv6Pieces [0] (Some 1) (drop 2 s) else None)
            else ipv6Pieces [] None s) of
        None \<Rightarrow> None
      | Some (pieces, None) \<Rightarrow> if length pieces = 8 then Some pieces else None
      | Some (pieces, Some k) \<Rightarrow>
          if 8 < length pieces then None
          else Some (take k pieces @ replicate (8 - length pieces) 0 @ drop k pieces))"

text \<open>The IPv6 serialiser: lower-case hexadecimal pieces; the first longest run of two
  or more zero pieces is written as \<open>::\<close>.\<close>

function hexLower :: "nat \<Rightarrow> string" where
  "hexLower n =
     (if n < 16 then [''0123456789abcdef'' ! n]
      else hexLower (n div 16) @ [''0123456789abcdef'' ! (n mod 16)])"
  by pat_completeness auto
termination
  by (relation "measure id") auto

declare hexLower.simps [simp del]

definition zeroRun :: "nat list \<Rightarrow> nat \<Rightarrow> nat" where
  "zeroRun address i = length (takeWhile (\<lambda>p. p = 0) (drop i address))"

definition compressIndex :: "nat list \<Rightarrow> nat option" where
  "compressIndex address =
     (let longest = foldr max (map (zeroRun address) [0 ..< 8]) 0
      in if longest < 2 then None
         else List.find (\<lambda>i. zeroRun address i = longest) [0 ..< 8])"

fun joinColon :: "string list \<Rightarrow> string" where
  "joinColon [] = []"
| "joinColon [p] = p"
| "joinColon (p # ps) = p @ '':'' @ joinColon ps"

definition serializeIPv6 :: "nat list \<Rightarrow> string" where
  "serializeIPv6 address =
     (case compressIndex address of
        None \<Rightarrow> joinColon (map hexLower address)
      | Some k \<Rightarrow>
          concat (map (\<lambda>p. hexLower p @ '':'') (take k address))
          @ (if k = 0 then ''::'' else '':'')
          @ joinColon (map hexLower (drop (k + zeroRun address k) address)))"

subsection \<open>The host parser\<close>

text \<open>Percent-decoding of a string of ASCII code units.\<close>

fun percentDecode :: "string \<Rightarrow> string" where
  "percentDecode [] = []"
| "percentDecode (c # cs) =
     (if c = CHR ''%'' then
        (case cs of
           h1 # h2 # rest \<Rightarrow>
             if isAsciiHexDigit h1 \<and> isAsciiHexDigit h2
             then char_of (16 * digitValue h1 + digitValue h2) # percentDecode rest
             else c # percentDecode cs
         | _ \<Rightarrow> c # percentDecode cs)
      else c # percentDecode cs)"

text \<open>The host parser. \<open>isOpaque\<close> holds for a scheme that is not special. A host in
  square brackets is an IPv6 literal. The host of a special scheme is percent-decoded
  and, being ASCII, put in lower case; it must not hold a forbidden code point; when it
  ends in a number it is an IPv4 address.\<close>

definition parseHost :: "bool \<Rightarrow> string \<Rightarrow> string option" where
  "parseHost isOpaque input =
     (if startsWith input ''[''
      then (if last input \<noteq> CHR '']'' then None
            else (case parseIPv6 (butlast (tl input)) of
                    None \<Rightarrow> None
                  | Some address \<Rightarrow> Some (''['' @ serializeIPv6 address @ '']'')))
      else if isOpaque
      then (if list_ex forbiddenHostCodePoint input then None
            else Some (concat (map (utf8PercentEncode inC0ControlSet) input)))
      else (let domain = percentDecode input in
            if list_ex (\<lambda>c. 128 \<le> code c) domain then None
            else (let asciiDomain = map asciiLower domain in
                  if asciiDomain = [] \<or> list_ex forbiddenDomainCodePoint asciiDomain then None
                  else if endsInANumber asciiDomain then parseIPv4 asciiDomain
                  else Some asciiDomain)))"

subsection \<open>Path\<close>

definition isSingleDot :: "string \<Rightarrow> bool" where
  "isSingleDot b = (map asciiLower b \<in> set [''.'', ''%2e''])"

definition isDoubleDot :: "string \<Rightarrow> bool" where
  "isDoubleDot b = (map asciiLower b \<in> set [''..'', ''.%2e'', ''%2e.'', ''%2e%2e''])"

definition isWindowsDriveLetter :: "string \<Rightarrow> bool" where
  "isWindowsDriveLetter b =
     (case b of
        [l, d] \<Rightarrow> isAsciiAlpha l \<and> (d = CHR '':'' \<or> d = CHR ''|'')
      | _ \<Rightarrow> False)"

definition isNormalizedWindowsDriveLetter :: "string \<Rightarrow> bool" where
  "isNormalizedWindowsDriveLetter b =
     (case b of [l, d] \<Rightarrow> isAsciiAlpha l \<and> d = CHR '':'' | _ \<Rightarrow> False)"

definition shortenPath :: "string \<Rightarrow> string list \<Rightarrow> string list" where
  "shortenPath sch p =
     (if sch = ''file'' \<and> length p = 1 \<and> isNormalizedWindowsDriveLetter (hd p) then p
      else butlast p)"

text \<open>What the path state does with its buffer when a segment ends. \<open>atEnd\<close> holds
  when the segment is ended by the end of the input, \<open>?\<close> or \<open>#\<close>, and not by a slash.\<close>

definition endSegment :: "string \<Rightarrow> string list \<Rightarrow> string \<Rightarrow> bool \<Rightarrow> string list" where
  "endSegment sch p buffer atEnd =
     (if isDoubleDot buffer
      then (if atEnd then shortenPath sch p @ [[]] else shortenPath sch p)
      else if isSingleDot buffer
      then (if atEnd then p @ [[]] else p)
      else if sch = ''file'' \<and> p = [] \<and> isWindowsDriveLetter buffer
      then p @ [[hd buffer, CHR '':'']]
      else p @ [buffer])"

definition isSlash :: "string \<Rightarrow> char \<Rightarrow> bool" where
  "isSlash sch c = (c = CHR ''/'' \<or> (isSpecial sch \<and> c = CHR 0x5C))"

text \<open>The path state, one code point at a time, with the path so far and the buffer.\<close>

fun pathState :: "string \<Rightarrow> string list \<Rightarrow> string \<Rightarrow> string \<Rightarrow> string list" where
  "pathState sch p buffer [] = endSegment sch p buffer True"
| "pathState sch p buffer (c # cs) =
     (if isSlash sch c then pathState sch (endSegment sch p buffer False) [] cs
      else if c = CHR ''?'' \<or> c = CHR ''#'' then endSegment sch p buffer True
      else pathState sch p (buffer @ utf8PercentEncode inPathSet c) cs)"

text \<open>The opaque path state: up to \<open>?\<close> or \<open>#\<close>; a space just before one of them
  becomes \<open>%20\<close>.\<close>

fun opaquePathState :: "string \<Rightarrow> string" where
  "opaquePathState [] = []"
| "opaquePathState (c # cs) =
     (if c = CHR ''?'' \<or> c = CHR ''#'' then []
      else if c = CHR '' '' then
        (if startsWith cs ''?'' \<or> startsWith cs ''#'' then ''%20'' else '' '') @ opaquePathState cs
      else utf8PercentEncode inC0ControlSet c @ opaquePathState cs)"

text \<open>The path start state, entered after the authority: the rest of the input is
  empty or starts with a slash, \<open>?\<close> or \<open>#\<close>.\<close>

definition pathStartState :: "string \<Rightarrow> string \<Rightarrow> string list" where
  "pathStartState sch rest =
     (case rest of
        [] \<Rightarrow> if isSpecial sch then pathState sch [] [] [] else []
      | c # cs \<Rightarrow>
          if isSpecial sch then pathState sch [] [] (if isSlash sch c then cs else rest)
          else if c = CHR ''?'' \<or> c = CHR ''#'' then []
          else pathState sch [] [] (if c = CHR ''/'' then cs else rest))"

subsection \<open>Authority\<close>

definition authorityEnd :: "string \<Rightarrow> char \<Rightarrow> bool" where
  "authorityEnd sch c = (isSlash sch c \<or> c = CHR ''?'' \<or> c = CHR ''#'')"

text \<open>The host state reads up to the first colon that is not inside square brackets;
  the port state reads what follows the colon.\<close>

fun splitHostPort :: "bool \<Rightarrow> string \<Rightarrow> string \<times> string option" where
  "splitHostPort insideBrackets [] = ([], None)"
| "splitHostPort insideBrackets (c # cs) =
     (if c = CHR '':'' \<and> \<not> insideBrackets then ([], Some cs)
      else (case splitHostPort
                   (if c = CHR ''['' then True else if c = CHR '']'' then False
                    else insideBrackets) cs of
              (h, p) \<Rightarrow> (c # h, p)))"

text \<open>The authority, host and port states for the input after the slashes of the
  scheme. Credentials end at the last \<open>@\<close> and are not kept.\<close>

definition authorityState :: "string \<Rightarrow> string \<Rightarrow> URL option" where
  "authorityState sch input =
     (let authority = takeWhile (\<lambda>c. \<not> authorityEnd sch c) input;
          rest = dropWhile (\<lambda>c. \<not> authorityEnd sch c) input;
          atSignSeen = (CHR ''@'' \<in> set authority);
          buffer = (if atSignSeen then rev (takeWhile (\<lambda>c. c \<noteq> CHR ''@'') (rev authority))
                    else authority)
      in if atSignSeen \<and> buffer = [] then None
         else (case splitHostPort False buffer of
                 (hostBuffer, None) \<Rightarrow>
                   if isSpecial sch \<and> hostBuffer = [] then None
                   else (case parseHost (\<not> isSpecial sch) hostBuffer of
                           None \<Rightarrow> None
                         | Some h \<Rightarrow>
                             Some \<lparr>scheme = sch, uhost = Some h, port = None,
                                   path = ListPath (pathStartState sch rest)\<rparr>)
               | (hostBuffer, Some portBuffer) \<Rightarrow>
                   if hostBuffer = [] then None
                   else (case parseHost (\<not> isSpecial sch) hostBuffer of
                           None \<Rightarrow> None
                         | Some h \<Rightarrow>
                             if \<not> list_all isAsciiDigit portBuffer then None
                             else if portBuffer = []
                             then Some \<lparr>scheme = sch, uhost = Some h, port = None,
                                        path = ListPath (pathStartState sch rest)\<rparr>
                             else (case parseRadix 10 portBuffer of
                                     None \<Rightarrow> None
                                   | Some n \<Rightarrow>
                                       if 65535 < n then None
                                       else Some \<lparr>scheme = sch, uhost = Some h,
                                              port = (if defaultPort sch = Some n then None
                                                      else Some n),
                                              path = ListPath (pathStartState sch rest)\<rparr>))))"

subsection \<open>The \<open>file\<close> scheme\<close>

definition isAnySlash :: "char \<Rightarrow> bool" where
  "isAnySlash c = (c = CHR ''/'' \<or> c = CHR 0x5C)"

definition fileHostState :: "string \<Rightarrow> URL option" where
  "fileHostState input =
     (let buffer = takeWhile (\<lambda>c. \<not> authorityEnd ''file'' c) input;
          rest = dropWhile (\<lambda>c. \<not> authorityEnd ''file'' c) input
      in if isWindowsDriveLetter buffer
         then Some \<lparr>scheme = ''file'', uhost = Some [], port = None,
                    path = ListPath (pathState ''file'' [] buffer rest)\<rparr>
         else if buffer = []
         then Some \<lparr>scheme = ''file'', uhost = Some [], port = None,
                    path = ListPath (pathStartState ''file'' rest)\<rparr>
         else (case parseHost False buffer of
                 None \<Rightarrow> None
               | Some h \<Rightarrow>
                   Some \<lparr>scheme = ''file'',
                         uhost = Some (if h = ''localhost'' then [] else h), port = None,
                         path = ListPath (pathStartState ''file'' rest)\<rparr>))"

text \<open>The file state and the file slash state, with no base URL.\<close>

definition fileState :: "string \<Rightarrow> URL option" where
  "fileState input =
     (case input of
        [] \<Rightarrow> Some \<lparr>scheme = ''file'', uhost = Some [], port = None,
                   path = ListPath (pathState ''file'' [] [] [])\<rparr>
      | c # cs \<Rightarrow>
          if isAnySlash c
          then (case cs of
                  [] \<Rightarrow> Some \<lparr>scheme = ''file'', uhost = Some [], port = None,
                             path = ListPath (pathState ''file'' [] [] [])\<rparr>
                | d # ds \<Rightarrow>
                    if isAnySlash d then fileHostState ds
                    else Some \<lparr>scheme = ''file'', uhost = Some [], port = None,
                               path = ListPath (pathState ''file'' [] [] cs)\<rparr>)
          else Some \<lparr>scheme = ''file'', uhost = Some [], port = None,
                     path = ListPath (pathState ''file'' [] [] input)\<rparr>)"

subsection \<open>The parser and the two getters\<close>

text \<open>After the scheme: a special scheme skips every slash and backslash and reads an
  authority; another scheme reads an authority after \<open>//\<close>, a path after one slash,
  and an opaque path otherwise.\<close>

definition parseURL :: "string \<Rightarrow> URL option" where
  "parseURL input =
     (case parseScheme (stripInput input) of
        None \<Rightarrow> None
      | Some (sch, rest) \<Rightarrow>
          if sch = ''file'' then fileState rest
          else if isSpecial sch then authorityState sch (dropWhile isAnySlash rest)
          else (case rest of
                  [] \<Rightarrow> Some \<lparr>scheme = sch, uhost = None, port = None, path = OpaquePath []\<rparr>
                | c # cs \<Rightarrow>
                    if c = CHR ''/'' then
                      (case cs of
                         [] \<Rightarrow> Some \<lparr>scheme = sch, uhost = None, port = None,
                                    path = ListPath (pathState sch [] [] [])\<rparr>
                       | d # ds \<Rightarrow>
                           if d = CHR ''/'' then authorityState sch ds
                           else Some \<lparr>scheme = sch, uhost = None, port = None,
                                      path = ListPath (pathState sch [] [] cs)\<rparr>)
                    else Some \<lparr>scheme = sch, uhost = None, port = None,
                               path = OpaquePath (opaquePathState rest)\<rparr>))"

definition pathname :: "URL \<Rightarrow> string" where
  "pathname url =
     (case path url of
        OpaquePath p \<Rightarrow> p
      | ListPath segments \<Rightarrow> concat (map (\<lambda>segment. CHR ''/'' # segment) segments))"

definition host :: "URL \<Rightarrow> string" where
  "host url =
     (case uhost url of
        None \<Rightarrow> []
      | Some h \<Rightarrow> (case port url of None \<Rightarrow> h | Some p \<Rightarrow> h @ '':'' @ decimal p))"

section \<open>The URL normaliser (utils/urlMatcher.ts)\<close>

text \<open>
  Each of the four regular expressions of \<open>normalizeUrl\<close> is a slash followed by a
  body, and is used with \<^verbatim>\<open>replace\<close> and the flag \<open>g\<close>: the subject is scanned from the
  left, every match is replaced by \<open>/:id\<close>, and the scan goes on behind the match. A
  body is given by a function that returns the length of its match at the start of a
  string. No body can match a slash, so a failed match at one slash leaves that slash
  in place and the scan goes on with the next code unit.
\<close>

function replaceWithId :: "(string \<Rightarrow> nat option) \<Rightarrow> string \<Rightarrow> string" where
  "replaceWithId body [] = []"
| "replaceWithId body (c # cs) =
     (if c = CHR ''/'' then
        (case body cs of
           Some n \<Rightarrow> ''/:id'' @ replaceWithId body (drop n cs)
         | None \<Rightarrow> c # replaceWithId body cs)
      else c # replaceWithId body cs)"
  by pat_completeness auto
termination
  by (relation "measure (\<lambda>(body, s). length s)") auto

text \<open>\<^verbatim>\<open>[0-9a-f]{8}-[0-9a-f]{4}-[0-9a-f]{4}-[0-9a-f]{4}-[0-9a-f]{12}\<close> with the flag \<open>i\<close>.\<close>

definition uuidBody :: "string \<Rightarrow> nat option" where
  "uuidBody s =
     (if list_all2 (\<lambda>shape c. if shape = CHR ''x'' then isAsciiHexDigit c else c = CHR ''-'')
           ''xxxxxxxx-xxxx-xxxx-xxxx-xxxxxxxxxxxx'' (take 36 s)
      then Some 36 else None)"

text \<open>\<^verbatim>\<open>\d+\<close>.\<close>

definition digitsBody :: "string \<Rightarrow> nat option" where
  "digitsBody s =
     (let n = length (takeWhile isAsciiDigit s) in if 1 \<le> n then Some n else None)"

text \<open>\<^verbatim>\<open>[a-z0-9_-]{8,}\<close> with the flag \<open>i\<close>.\<close>

definition isIdChar :: "char \<Rightarrow> bool" where
  "isIdChar c = (isAsciiAlphanumeric c \<or> c = CHR ''_'' \<or> c = CHR ''-'')"

definition alnumBody :: "string \<Rightarrow> nat option" where
  "alnumBody s =
     (let n = length (takeWhile isIdChar s) in if 8 \<le> n then Some n else None)"

text \<open>\<^verbatim>\<open>[0-9a-f]{24}\<close> with the flag \<open>i\<close>.\<close>

definition objectIdBody :: "string \<Rightarrow> nat option" where
  "objectIdBody s =
     (if length (take 24 s) = 24 \<and> list_all isAsciiHexDigit (take 24 s) then Some 24
      else None)"

definition normalizeUrl :: "string \<Rightarrow> string" where
  "normalizeUrl url =
     (case parseURL url of
        None \<Rightarrow> url
      | Some urlObj \<Rightarrow>
          (let pathname1 = replaceWithId uuidBody (pathname urlObj);
               pathname2 = replaceWithId digitsBody pathname1;
               pathname3 = replaceWithId alnumBody pathname2;
               pathname4 = replaceWithId objectIdBody pathname3
           in pathname4))"

text \<open>A pattern: what \<open>pathname\<close> gives for a path that is a list of segments.\<close>

definition isPattern :: "string \<Rightarrow> bool" where
  "isPattern s = (s = [] \<or> (\<exists>q. s = CHR ''/'' # q))"

section \<open>The collection matcher (utils/urlMatcher.ts)\<close>

text \<open>
  The remote document is a tree of items. The matcher takes items of any shape: an
  item is searched as a folder when its field \<open>item\<close> is an array, and is tested as a
  request when it has a field \<open>request\<close>. The URL of a request is a string or an object
  with the field \<open>raw\<close>; the matcher guards the extraction with \<^verbatim>\<open>try\<close>, so the field
  \<open>url\<close> and the field \<open>raw\<close> may be absent, and the method (here \<open>httpMethod\<close>) is read with
  \<^verbatim>\<open>?.\<close>, so it may be absent too. The header list is there, as the interface \<open>PostmanRequest\<close>
  declares it. The fields \<open>body\<close> and \<open>auth\<close> of a request are not read by the
  operations modelled here and are left out.
\<close>

datatype PostmanUrl = UrlString string | UrlObject "string option"

record PostmanRequestDef =
  httpMethod :: "string option"
  header :: "RequestHeader list"
  url :: "PostmanUrl option"

datatype PostmanItem =
  Item (name: string) (item: "PostmanItem list option") (request: "PostmanRequestDef option")

datatype exn = TypeError

text \<open>\<open>extractPostmanUrl\<close>: reading \<open>raw\<close> of an absent URL throws; an object without
  \<open>raw\<close> gives \<open>undefined\<close>, here \<open>Inr None\<close>.\<close>

definition extractPostmanUrl :: "PostmanRequestDef \<Rightarrow> exn + string option" where
  "extractPostmanUrl r =
     (case url r of
        None \<Rightarrow> Inl TypeError
      | Some (UrlString s) \<Rightarrow> Inr (Some s)
      | Some (UrlObject raw) \<Rightarrow> Inr raw)"

text \<open>\<open>normalizeUrl\<close> and \<open>new URL\<close> applied to what may be \<open>undefined\<close>: the constructor
  throws on \<open>undefined\<close>, and \<open>normalizeUrl\<close> then returns its argument.\<close>

definition normalizeUrlArg :: "string option \<Rightarrow> string option" where
  "normalizeUrlArg u = (case u of None \<Rightarrow> None | Some s \<Rightarrow> Some (normalizeUrl s))"

definition parseURLArg :: "string option \<Rightarrow> URL option" where
  "parseURLArg u = (case u of None \<Rightarrow> None | Some s \<Rightarrow> parseURL s)"

fun findMatchingRequest :: "string \<Rightarrow> PostmanItem list \<Rightarrow> PostmanItem option" where
  "findMatchingRequest capturedUrl [] = None"
| "findMatchingRequest capturedUrl (Item n ch rq # rest) =
     (case (case ch of
              Some children \<Rightarrow> findMatchingRequest capturedUrl children
            | None \<Rightarrow> None) of
        Some match \<Rightarrow> Some match
      | None \<Rightarrow>
          (case rq of
             None \<Rightarrow> findMatchingRequest capturedUrl rest
           | Some r \<Rightarrow>
               (case extractPostmanUrl r of
                  Inl e \<Rightarrow> findMatchingRequest capturedUrl rest
                | Inr postmanUrl \<Rightarrow>
                    if Some (normalizeUrl capturedUrl) = normalizeUrlArg postmanUrl
                    then Some (Item n ch rq)
                    else findMatchingRequest capturedUrl rest)))"

text \<open>\<^verbatim>\<open>item.request.method?.toUpperCase() || 'GET'\<close>: an absent method and the empty
  string both give \<open>GET\<close>.\<close>

definition postmanMethod :: "PostmanRequestDef \<Rightarrow> string" where
  "postmanMethod r =
     (case httpMethod r of
        None \<Rightarrow> ''GET''
      | Some m \<Rightarrow> if toUpperCase m = [] then ''GET'' else toUpperCase m)"

text \<open>The inner function \<open>searchRecursive\<close> of \<open>findMatchingRequestWithMethod\<close>, with
  the two captured variables as arguments.\<close>

fun searchRecursiveMethod :: "string \<Rightarrow> string \<Rightarrow> PostmanItem list \<Rightarrow> PostmanItem option" where
  "searchRecursiveMethod normalizedCaptured m [] = None"
| "searchRecursiveMethod normalizedCaptured m (Item n ch rq # rest) =
     (case (case ch of
              Some children \<Rightarrow> searchRecursiveMethod normalizedCaptured m children
            | None \<Rightarrow> None) of
        Some match \<Rightarrow> Some match
      | None \<Rightarrow>
          (case rq of
             None \<Rightarrow> searchRecursiveMethod normalizedCaptured m rest
           | Some r \<Rightarrow>
               (case extractPostmanUrl r of
                  Inl e \<Rightarrow> searchRecursiveMethod normalizedCaptured m rest
                | Inr postmanUrl \<Rightarrow>
                    if Some normalizedCaptured = normalizeUrlArg postmanUrl \<and>
                       toUpperCase m = postmanMethod r
                    then Some (Item n ch rq)
                    else searchRecursiveMethod normalizedCaptured m rest)))"

definition findMatchingRequestWithMethod ::
    "string \<Rightarrow> string \<Rightarrow> PostmanItem list \<Rightarrow> PostmanItem option" where
  "findMatchingRequestWithMethod capturedUrl m postmanRequests =
     searchRecursiveMethod (normalizeUrl capturedUrl) m postmanRequests"

text \<open>\<open>findAllRequestsForHost\<close>: the inner \<open>searchRecursive\<close> pushes every request whose
  URL parses and has the host asked for; the model returns what it pushes, in order.\<close>

fun findAllRequestsForHost :: "string \<Rightarrow> PostmanItem list \<Rightarrow> PostmanItem list" where
  "findAllRequestsForHost h [] = []"
| "findAllRequestsForHost h (Item n ch rq # rest) =
     (case ch of Some children \<Rightarrow> findAllRequestsForHost h children | None \<Rightarrow> [])
     @ (case rq of
          None \<Rightarrow> []
        | Some r \<Rightarrow>
            (case extractPostmanUrl r of
               Inl e \<Rightarrow> []
             | Inr postmanUrl \<Rightarrow>
                 (case parseURLArg postmanUrl of
                    None \<Rightarrow> []
                  | Some urlObj \<Rightarrow> if host urlObj = h then [Item n ch rq] else [])))
     @ findAllRequestsForHost h rest"

subsection \<open>The order of the search, and the tree of the specification\<close>

text \<open>The items with a request, in the order in which the loops of the matcher test
  them: the children of an item, the item itself, the items after it.\<close>

fun candidates :: "PostmanItem list \<Rightarrow> PostmanItem list" where
  "candidates [] = []"
| "candidates (Item n ch rq # rest) =
     (case ch of Some children \<Rightarrow> candidates children | None \<Rightarrow> [])
     @ (case rq of Some r \<Rightarrow> [Item n ch rq] | None \<Rightarrow> [])
     @ candidates rest"

text \<open>In the words of the specification: every node of the tree is a folder or a leaf
  request, the traversal is depth-first and pre-order in the order of the children, and
  the leaves are compared by their normalised URLs.\<close>

fun preorder :: "PostmanItem list \<Rightarrow> PostmanItem list" where
  "preorder [] = []"
| "preorder (Item n ch rq # rest) =
     Item n ch rq # (case ch of Some children \<Rightarrow> preorder children | None \<Rightarrow> []) @ preorder rest"

definition isLeaf :: "PostmanItem \<Rightarrow> bool" where
  "isLeaf it = (request it \<noteq> None)"

fun folderOrLeaf :: "PostmanItem list \<Rightarrow> bool" where
  "folderOrLeaf [] = True"
| "folderOrLeaf (Item n ch rq # rest) =
     ((ch = None \<or> rq = None) \<and>
      (case ch of Some children \<Rightarrow> folderOrLeaf children | None \<Rightarrow> True) \<and>
      folderOrLeaf rest)"

text \<open>The URL of a leaf when it can be extracted: \<open>None\<close> for an item with no request,
  for a request with no URL, and for a URL object with no \<open>raw\<close>.\<close>

definition extractedUrl :: "PostmanItem \<Rightarrow> string option" where
  "extractedUrl it =
     (case request it of
        None \<Rightarrow> None
      | Some r \<Rightarrow> (case extractPostmanUrl r of Inl e \<Rightarrow> None | Inr raw \<Rightarrow> raw))"

definition samePattern :: "string \<Rightarrow> PostmanItem \<Rightarrow> bool" where
  "samePattern capturedUrl it =
     (map_option normalizeUrl (extractedUrl it) = Some (normalizeUrl capturedUrl))"

definition leafMethod :: "PostmanItem \<Rightarrow> string" where
  "leafMethod it = (case request it of None \<Rightarrow> [] | Some r \<Rightarrow> postmanMethod r)"

definition samePatternAndMethod :: "string \<Rightarrow> string \<Rightarrow> PostmanItem \<Rightarrow> bool" where
  "samePatternAndMethod capturedUrl m it =
     (samePattern capturedUrl it \<and> toUpperCase m = leafMethod it)"

text \<open>A small document: a folder with a request for another path and a request with
  no URL, followed by the leaf of the example in the specification.\<close>

definition leafItems42 :: PostmanItem where
  "leafItems42 =
     Item ''Get item'' None
       (Some \<lparr>httpMethod = Some ''GET'', header = [],
              url = Some (UrlObject (Some ''https://api.x.com/items/42''))\<rparr>)"

definition exampleTree :: "PostmanItem list" where
  "exampleTree =
     [Item ''Users'' (Some
        [Item ''List users'' None
           (Some \<lparr>httpMethod = Some ''GET'', header = [],
                  url = Some (UrlString ''https://api.x.com/users'')\<rparr>),
         Item ''No URL'' None (Some \<lparr>httpMethod = None, header = [], url = None\<rparr>)]) None,
      leafItems42]"

text \<open>A leaf that states no method.\<close>

definition leafNoMethod :: PostmanItem where
  "leafNoMethod =
     Item ''Item'' None
       (Some \<lparr>httpMethod = None, header = [],
              url = Some (UrlString ''https://api.x.com/items/42'')\<rparr>)"

section \<open>The capture buffer and the capture session (background/requestCapture.ts)\<close>

text \<open>
  The module keeps its state in global variables; the model passes a record of them.
  \<^item> \<open>capturedRequests\<close> is the buffer, \<open>hostMap\<close> the table of hosts, \<open>captureState\<close>
    and \<open>onCaptureCallback\<close> the session.
  \<^item> \<open>invoked\<close> is the trace of the calls of the callback, each with the request it was
    handed; the callback is known by the closure that \<open>handleStartCapture\<close> builds, which
    upserts into one collection.
  \<^item> \<^verbatim>\<open>Date.now()\<close> and the random suffix of the id are inputs of the listener.
  \<^item> The side table of request bodies and the field \<open>body\<close> of a captured request are
    left out: neither the buffer nor the session reads them.
  The callback is asynchronous: it awaits the upsert and then calls
  \<open>incrementSyncedCount\<close> when the upsert succeeded. The end of one such upsert is an
  event of its own, \<open>SyncCompleted\<close>, which may come at any later time.
\<close>

definition endsWith :: "string \<Rightarrow> string \<Rightarrow> bool" where
  "endsWith s suffix = startsWith (rev s) (rev suffix)"

record CapturedRequest =
  reqId :: string
  timestamp :: nat
  reqMethod :: string
  reqUrl :: string
  reqHeaders :: "RequestHeader list"
  authType :: AuthType
  authValue :: "string option"

record HostInfo =
  hostName :: string
  requestCount :: nat
  lastSeen :: nat
  hasAuth :: bool

record CaptureState =
  isCapturing :: bool
  targetHost :: "string option"
  collectionId :: "string option"
  capturedCount :: nat
  syncedCount :: nat

datatype callback = AutoSync string

record State =
  capturedRequests :: "CapturedRequest list"
  hostMap :: "string \<rightharpoonup> HostInfo"
  captureState :: CaptureState
  onCaptureCallback :: "callback option"
  invoked :: "(callback \<times> CapturedRequest) list"

definition MAX_REQUESTS :: nat where
  "MAX_REQUESTS = 100"

definition idleState :: CaptureState where
  "idleState =
     \<lparr>isCapturing = False, targetHost = None, collectionId = None,
      capturedCount = 0, syncedCount = 0\<rparr>"

definition initialState :: State where
  "initialState =
     \<lparr>capturedRequests = [], hostMap = Map.empty, captureState = idleState,
      onCaptureCallback = None, invoked = []\<rparr>"

definition shouldCaptureRequest :: "string \<Rightarrow> bool" where
  "shouldCaptureRequest u =
     (if startsWith u ''chrome://'' then False
      else if startsWith u ''chrome-extension://'' then False
      else if startsWith u ''edge://'' then False
      else if startsWith u ''about:'' then False
      else if startsWith u ''data:'' then False
      else if startsWith u ''blob:'' then False
      else if list_ex (\<lambda>ext. endsWith (toLowerCase u) ext)
                [''.png'', ''.jpg'', ''.jpeg'', ''.gif'', ''.svg'', ''.ico'', ''.woff'',
                 ''.woff2'', ''.ttf'', ''.eot'']
      then False
      else True)"

record Details =
  detUrl :: string
  detType :: string
  detMethod :: string
  requestHeaders :: "(string \<times> string option) list option"

definition convertHeaders :: "(string \<times> string option) list option \<Rightarrow> RequestHeader list" where
  "convertHeaders hs =
     map (\<lambda>(n, v). \<lparr>key = n, hvalue = (case v of None \<Rightarrow> [] | Some x \<Rightarrow> x)\<rparr>)
       (case hs of None \<Rightarrow> [] | Some l \<Rightarrow> l)"

definition admitted :: "Details \<Rightarrow> bool" where
  "admitted details =
     (shouldCaptureRequest (detUrl details) \<and>
      (detType details = ''xmlhttprequest'' \<or> detType details = ''fetch''))"

definition buildCapturedRequest :: "Details \<Rightarrow> nat \<Rightarrow> string \<Rightarrow> CapturedRequest" where
  "buildCapturedRequest details now rnd =
     (let headers = convertHeaders (requestHeaders details);
          authInfo = detectAuthType headers
      in \<lparr>reqId = decimal now @ ''-'' @ rnd, timestamp = now, reqMethod = detMethod details,
           reqUrl = detUrl details, reqHeaders = headers, authType = atype authInfo,
           authValue = avalue authInfo\<rparr>)"

definition onBeforeSendHeaders :: "Details \<Rightarrow> nat \<Rightarrow> string \<Rightarrow> State \<Rightarrow> State" where
  "onBeforeSendHeaders details now rnd s =
     (if \<not> shouldCaptureRequest (detUrl details) then s
      else if detType details \<noteq> ''xmlhttprequest'' \<and> detType details \<noteq> ''fetch'' then s
      else
        (let capturedRequest = buildCapturedRequest details now rnd;
             unshifted = capturedRequest # capturedRequests s;
             s1 = s\<lparr>capturedRequests :=
                      (if MAX_REQUESTS < length unshifted then butlast unshifted
                       else unshifted)\<rparr>
         in case parseURL (reqUrl capturedRequest) of
              None \<Rightarrow> s1
            | Some urlObj \<Rightarrow>
                (let h = host urlObj;
                     existingHost = hostMap s1 h;
                     s2 = s1\<lparr>hostMap := (hostMap s1)(h \<mapsto>
                            \<lparr>hostName = h,
                             requestCount =
                               (case existingHost of None \<Rightarrow> 0 | Some e \<Rightarrow> requestCount e) + 1,
                             lastSeen = now,
                             hasAuth =
                               ((case existingHost of None \<Rightarrow> False | Some e \<Rightarrow> hasAuth e) \<or>
                                authType capturedRequest \<noteq> none)\<rparr>)\<rparr>
                 in case onCaptureCallback s2 of
                      None \<Rightarrow> s2
                    | Some cb \<Rightarrow>
                        if isCapturing (captureState s2) \<and> targetHost (captureState s2) = Some h
                        then s2\<lparr>captureState :=
                                  (captureState s2)\<lparr>capturedCount :=
                                     capturedCount (captureState s2) + 1\<rparr>,
                                invoked := invoked s2 @ [(cb, capturedRequest)]\<rparr>
                        else s2)))"

definition clearCapturedRequests :: "State \<Rightarrow> State" where
  "clearCapturedRequests s = s\<lparr>capturedRequests := []\<rparr>"

definition startCapture :: "string \<Rightarrow> string \<Rightarrow> callback \<Rightarrow> State \<Rightarrow> State" where
  "startCapture h cid cb s =
     s\<lparr>captureState :=
         \<lparr>isCapturing = True, targetHost = Some h, collectionId = Some cid,
          capturedCount = 0, syncedCount = 0\<rparr>,
       onCaptureCallback := Some cb\<rparr>"

definition stopCapture :: "State \<Rightarrow> CaptureState \<times> State" where
  "stopCapture s =
     (let finalState = captureState s
      in (finalState, s\<lparr>captureState := idleState, onCaptureCallback := None\<rparr>))"

definition incrementSyncedCount :: "State \<Rightarrow> State" where
  "incrementSyncedCount s =
     s\<lparr>captureState := (captureState s)\<lparr>syncedCount := syncedCount (captureState s) + 1\<rparr>\<rparr>"

definition syncCompleted :: "bool \<Rightarrow> State \<Rightarrow> State" where
  "syncCompleted ok s = (if ok then incrementSyncedCount s else s)"

datatype event =
  BeforeSendHeaders Details nat string
| SyncCompleted bool
| ClearRequests
| StartCapture string string callback
| StopCapture

fun step :: "State \<Rightarrow> event \<Rightarrow> State" where
  "step s (BeforeSendHeaders details now rnd) = onBeforeSendHeaders details now rnd s"
| "step s (SyncCompleted ok) = syncCompleted ok s"
| "step s ClearRequests = clearCapturedRequests s"
| "step s (StartCapture h cid cb) = startCapture h cid cb s"
| "step s StopCapture = snd (stopCapture s)"

definition run :: "event list \<Rightarrow> State \<Rightarrow> State" where
  "run events s = foldl step s events"

fun recorded :: "event list \<Rightarrow> CapturedRequest list" where
  "recorded [] = []"
| "recorded (BeforeSendHeaders details now rnd # events) =
     (if admitted details then buildCapturedRequest details now rnd # recorded events
      else recorded events)"
| "recorded (e # events) = recorded events"

definition hostIs :: "string \<Rightarrow> CapturedRequest \<Rightarrow> bool" where
  "hostIs h r = (case parseURL (reqUrl r) of None \<Rightarrow> False | Some urlObj \<Rightarrow> host urlObj = h)"

fun isCaptureOrSync :: "event \<Rightarrow> bool" where
  "isCaptureOrSync (BeforeSendHeaders details now rnd) = True"
| "isCaptureOrSync (SyncCompleted ok) = True"
| "isCaptureOrSync e = False"

definition successfulSyncs :: "event list \<Rightarrow> nat" where
  "successfulSyncs events = length (filter (\<lambda>e. e = SyncCompleted True) events)"

text \<open>The session is armed for a host and a collection, with its two counters.\<close>

definition armed :: "string \<Rightarrow> string \<Rightarrow> callback \<Rightarrow> nat \<Rightarrow> nat \<Rightarrow> State \<Rightarrow> bool" where
  "armed h cid cb k j s =
     (captureState s =
        \<lparr>isCapturing = True, targetHost = Some h, collectionId = Some cid,
         capturedCount = k, syncedCount = j\<rparr> \<and>
      onCaptureCallback s = Some cb)"

text \<open>Example events: a fetch of the given URL with a bearer token.\<close>

definition exampleDetails :: "string \<Rightarrow> Details" where
  "exampleDetails u =
     \<lparr>detUrl = u, detType = ''fetch'', detMethod = ''GET'',
      requestHeaders = Some [(''Authorization'', Some ''Bearer t'')]\<rparr>"

definition exampleSession :: "event list" where
  "exampleSession =
     [BeforeSendHeaders (exampleDetails ''https://api.h.com/items/1'') 1 ''a'',
      SyncCompleted True,
      BeforeSendHeaders (exampleDetails ''https://api.y.com/items/2'') 2 ''b'',
      BeforeSendHeaders (exampleDetails ''https://api.h.com/items/3'') 3 ''c'',
      BeforeSendHeaders (exampleDetails ''https://api.h.com/users'') 4 ''d'',
      SyncCompleted False,
      SyncCompleted True]"

section \<open>The sync orchestrator (background/postmanApi.ts)\<close>

text \<open>
  The operations of the orchestrator are asynchronous: each reads the stored API key,
  fetches the document, changes it in memory and writes the whole document back. The
  model takes the remote side as a record: the stored key, the answer to a GET for a
  collection id (\<open>Inl\<close> with the status text when the request fails) and the answer to
  a PUT of a body for a collection id (\<open>Some\<close> with the status text when it fails). An
  operation returns its result, an error or a value, together with the PUT requests it
  has sent, in order.

  The fetched document comes from JSON: it is a tree in which no object occurs twice.
  Changing a request through the reference that the matcher returned is therefore
  changing that one node of the tree. \<open>mutateFirst\<close> changes the first item, in the order
  of the search, that has a request and passes the test, and returns nothing when there
  is none; \<open>mutateAll\<close> changes every such item.
\<close>

text \<open>The document: \<open>topItem\<close> is its field \<open>item\<close>, which may be absent, and \<open>info\<close>
  stands for the rest of it, which the operations carry along unchanged.\<close>

record Collection =
  info :: string
  topItem :: "PostmanItem list option"

text \<open>The errors thrown: no API key is stored; the GET failed; \<open>No matching request found
  in collection\<close>; \<open>No requests found for host\<close>; the PUT of \<open>updateTokenInCollection\<close>
  failed; the PUT of \<open>updateTokenForHost\<close> failed.\<close>

datatype error =
  ApiKeyNotConfigured
| FailedToFetchCollection string
| NoMatchingRequest
| NoRequestsForHost string
| FailedToUpdateToken string
| FailedToUpdateTokens string

record Remote =
  storedApiKey :: "string option"
  getResponse :: "string \<Rightarrow> string + Collection"
  putResponse :: "string \<Rightarrow> Collection \<Rightarrow> string option"

type_synonym put_request = "string \<times> Collection"

definition getApiHeaders :: "Remote \<Rightarrow> error + (string \<times> string) list" where
  "getApiHeaders env =
     (case storedApiKey env of
        None \<Rightarrow> Inl ApiKeyNotConfigured
      | Some apiKey \<Rightarrow>
          if apiKey = [] then Inl ApiKeyNotConfigured
          else Inr [(''X-Api-Key'', apiKey), (''Content-Type'', ''application/json'')])"

definition getCollection :: "Remote \<Rightarrow> string \<Rightarrow> error + Collection" where
  "getCollection env cid =
     (case getApiHeaders env of
        Inl e \<Rightarrow> Inl e
      | Inr headers \<Rightarrow>
          (case getResponse env cid of
             Inl msg \<Rightarrow> Inl (FailedToFetchCollection msg)
           | Inr collection \<Rightarrow> Inr collection))"

text \<open>\<^verbatim>\<open>Array.prototype.findIndex\<close>, with \<open>None\<close> for the result -1.\<close>

fun findIndex :: "('a \<Rightarrow> bool) \<Rightarrow> 'a list \<Rightarrow> nat option" where
  "findIndex P [] = None"
| "findIndex P (x # xs) = (if P x then Some 0 else map_option Suc (findIndex P xs))"

text \<open>The update of the header list that both token operations perform: the value of
  the first header named \<open>authorization\<close>, in any case, is replaced; a header
  \<open>Authorization\<close> is pushed when there is none.\<close>

definition setAuthorizationHeader :: "string \<Rightarrow> RequestHeader list \<Rightarrow> RequestHeader list" where
  "setAuthorizationHeader newAuthValue hs =
     (case findIndex (\<lambda>h. toLowerCase (key h) = ''authorization'') hs of
        Some authHeaderIndex \<Rightarrow>
          hs[authHeaderIndex := (hs ! authHeaderIndex)\<lparr>hvalue := newAuthValue\<rparr>]
      | None \<Rightarrow> hs @ [\<lparr>key = ''Authorization'', hvalue = newAuthValue\<rparr>])"

definition withAuthorization :: "string \<Rightarrow> PostmanItem \<Rightarrow> PostmanItem" where
  "withAuthorization newAuthValue it =
     (case it of
        Item n ch rq \<Rightarrow>
          Item n ch
            (map_option (\<lambda>r. r\<lparr>header := setAuthorizationHeader newAuthValue (header r)\<rparr>) rq))"


fun mutateAll ::
    "(PostmanItem \<Rightarrow> bool) \<Rightarrow> (PostmanItem \<Rightarrow> PostmanItem) \<Rightarrow> PostmanItem list
      \<Rightarrow> PostmanItem list" where
  "mutateAll P f [] = []"
| "mutateAll P f (Item n ch rq # rest) =
     (let it' = Item n (case ch of Some children \<Rightarrow> Some (mutateAll P f children)
                               | None \<Rightarrow> None) rq
      in (if rq \<noteq> None \<and> P (Item n ch rq) then f it' else it') # mutateAll P f rest)"



definition itemsOf :: "Collection \<Rightarrow> PostmanItem list" where
  "itemsOf collection = (case topItem collection of None \<Rightarrow> [] | Some l \<Rightarrow> l)"


text \<open>Whether the URL of an item parses and has the given host.\<close>

definition hasHost :: "string \<Rightarrow> PostmanItem \<Rightarrow> bool" where
  "hasHost h it =
     (case extractedUrl it of
        None \<Rightarrow> False
      | Some u \<Rightarrow> (case parseURL u of None \<Rightarrow> False | Some urlObj \<Rightarrow> host urlObj = h))"

record BulkTokenUpdateResult =
  updatedCount :: nat
  totalMatched :: nat
  requestNames :: "string list"

definition updateTokenForHost ::
    "Remote \<Rightarrow> string \<Rightarrow> string \<Rightarrow> string \<Rightarrow> AuthType
      \<Rightarrow> (error + BulkTokenUpdateResult) \<times> put_request list" where
  "updateTokenForHost env cid h authValue' authType' =
     (case getApiHeaders env of
        Inl e \<Rightarrow> (Inl e, [])
      | Inr headers \<Rightarrow>
          (case getCollection env cid of
             Inl e \<Rightarrow> (Inl e, [])
           | Inr collection \<Rightarrow>
               (let matchingRequests = findAllRequestsForHost h (itemsOf collection)
                in if length matchingRequests = 0 then (Inl (NoRequestsForHost h), [])
                   else
                     (let newAuthValue =
                            (if authType' = bearer then ''Bearer '' @ authValue' else authValue');
                          updatedNames = map name matchingRequests;
                          collection' = collection\<lparr>topItem :=
                            map_option (mutateAll (hasHost h) (withAuthorization newAuthValue))
                              (topItem collection)\<rparr>
                      in case putResponse env cid collection' of
                           Some msg \<Rightarrow> (Inl (FailedToUpdateTokens msg), [(cid, collection')])
                         | None \<Rightarrow>
                             (Inr \<lparr>updatedCount = length matchingRequests,
                                   totalMatched = length matchingRequests,
                                   requestNames = updatedNames\<rparr>,
                              [(cid, collection')])))))"

text \<open>What a request of the document says, apart from the items below it.\<close>

definition view :: "PostmanItem \<Rightarrow> string \<times> PostmanRequestDef option" where
  "view it = (name it, request it)"

text \<open>An example document, with three requests for the host \<open>api.h.com\<close> and one for
  \<open>api.y.com\<close>, and a remote side that serves it and accepts every write.\<close>

definition exampleLeafB :: PostmanItem where
  "exampleLeafB =
     Item ''B'' None
       (Some \<lparr>httpMethod = Some ''GET'', header = [],
              url = Some (UrlObject (Some ''https://api.h.com/items/5''))\<rparr>)"


definition exampleCollection :: Collection where
  "exampleCollection =
     \<lparr>info = ''Example'',
      topItem = Some
        [Item ''Folder'' (Some
           [Item ''A'' None
              (Some \<lparr>httpMethod = Some ''GET'',
                     header = [\<lparr>key = ''Accept'', hvalue = ''*/*''\<rparr>,
                               \<lparr>key = ''authorization'', hvalue = ''Bearer old''\<rparr>],
                     url = Some (UrlString ''https://api.h.com/a'')\<rparr>),
            exampleLeafB]) None,
         Item ''C'' None
           (Some \<lparr>httpMethod = Some ''POST'', header = [],
                  url = Some (UrlString ''https://api.y.com/items/5'')\<rparr>),
         Item ''D'' None
           (Some \<lparr>httpMethod = None, header = [\<lparr>key = ''X-Trace'', hvalue = ''1''\<rparr>],
                  url = Some (UrlString ''https://api.h.com/d'')\<rparr>)]\<rparr>"

definition exampleRemote :: Remote where
  "exampleRemote =
     \<lparr>storedApiKey = Some ''PMAK-1'',
      getResponse = (\<lambda>cid. if cid = ''c1'' then Inr exampleCollection else Inl ''Not Found''),
      putResponse = (\<lambda>cid collection. None)\<rparr>"

text \<open>The remote side is ready for a collection id: a key is stored and the GET
  answers with the document \<open>c\<close>.\<close>

definition remoteReady :: "Remote \<Rightarrow> string \<Rightarrow> Collection \<Rightarrow> bool" where
  "remoteReady env cid c =
     ((\<exists>k. storedApiKey env = Some k \<and> k \<noteq> []) \<and> getResponse env cid = Inr c)"

section \<open>Properties of the classifier\<close>

lemma isApiKeyName_includes:
  "isApiKeyName nm = (includes_str nm ''api-key'' \<or> includes_str nm ''apikey'')"
  unfolding isApiKeyName_def by auto

lemma detectAuthType_Cons:
  "detectAuthType (h # hs) =
     (case classifyHeader h of Some a \<Rightarrow> a | None \<Rightarrow> detectAuthType hs)"
  by (auto simp add: classifyHeader_def Let_def isApiKeyName_includes hasSessionCookie_def
      substring_def list_ex_iff)

lemma detectAuthType_first:
  "detectAuthType hs =
     (case List.map_filter classifyHeader hs of
        [] \<Rightarrow> \<lparr>atype = none, avalue = None\<rparr>
      | a # _ \<Rightarrow> a)"
proof (induction hs)
  case Nil
  show ?case by (simp add: List.map_filter_simps)
next
  case (Cons h hs)
  show ?case
    by (cases "classifyHeader h")
      (simp_all only: detectAuthType_Cons List.map_filter_simps option.case list.case Cons.IH)
qed

lemma detectAuthType_skip:
  "\<forall>x \<in> set pre. classifyHeader x = None \<Longrightarrow> detectAuthType (pre @ hs) = detectAuthType hs"
proof (induction pre)
  case Nil
  show ?case by simp
next
  case (Cons x pre)
  then have "classifyHeader x = None" and "\<forall>y \<in> set pre. classifyHeader y = None"
    by simp_all
  with Cons.IH show ?case
    by (simp only: append_Cons detectAuthType_Cons option.case)
qed

lemma authorization_not_apikey:
  "\<not> includes_str ''authorization'' ''api-key''" "\<not> includes_str ''authorization'' ''apikey''"
  by simp_all

lemma classifyHeader_apikey:
  assumes "includes_str (toLowerCase (key h)) ''api-key'' \<or>
           includes_str (toLowerCase (key h)) ''apikey''"
  shows "classifyHeader h = Some \<lparr>atype = apikey, avalue = Some (hvalue h)\<rparr>"
proof -
  from assms authorization_not_apikey have "toLowerCase (key h) \<noteq> ''authorization''"
    by metis
  with assms show ?thesis
    by (simp add: classifyHeader_def Let_def)
qed

lemma detectAuthType_example:
  "detectAuthType
     [\<lparr>key = ''Authorization'', hvalue = ''Bearer abc123''\<rparr>,
      \<lparr>key = ''X-Api-Key'', hvalue = ''k''\<rparr>]
   = \<lparr>atype = bearer, avalue = Some ''abc123''\<rparr>"
  by code_simp

text \<open>
  Claim C1. For every ordered header list the classifier returns one descriptor: the one
  that the rules of section 4.1 give for the first header, in capture order, to which a
  rule applies (within a header: bearer, then basic, then apikey, then cookie), and
  \<open>none\<close> when no rule applies to any header. The headers
  \<open>Authorization: Bearer abc123\<close>, \<open>X-Api-Key: k\<close> give bearer with \<open>abc123\<close>. A header
  with an apikey name, in a list with no \<open>Authorization\<close> header where no rule applies
  to a header ahead of it (so also when it stands alone), gives apikey with its raw value.
\<close>

theorem C1_detectAuthType_first_match:
  "detectAuthType hs =
     (case List.map_filter classifyHeader hs of
        [] \<Rightarrow> \<lparr>atype = none, avalue = None\<rparr>
      | a # _ \<Rightarrow> a)
   \<and> detectAuthType
       [\<lparr>key = ''Authorization'', hvalue = ''Bearer abc123''\<rparr>,
        \<lparr>key = ''X-Api-Key'', hvalue = ''k''\<rparr>]
     = \<lparr>atype = bearer, avalue = Some ''abc123''\<rparr>
   \<and> ((\<forall>x \<in> set (pre @ h # post). toLowerCase (key x) \<noteq> ''authorization'') \<and>
      (\<forall>x \<in> set pre. classifyHeader x = None) \<and>
      (includes_str (toLowerCase (key h)) ''api-key'' \<or>
       includes_str (toLowerCase (key h)) ''apikey'')
      \<longrightarrow> detectAuthType (pre @ h # post) = \<lparr>atype = apikey, avalue = Some (hvalue h)\<rparr>)"
proof (intro conjI impI)
  show "detectAuthType hs =
     (case List.map_filter classifyHeader hs of
        [] \<Rightarrow> \<lparr>atype = none, avalue = None\<rparr>
      | a # _ \<Rightarrow> a)"
    by (rule detectAuthType_first)
next
  show "detectAuthType
       [\<lparr>key = ''Authorization'', hvalue = ''Bearer abc123''\<rparr>,
        \<lparr>key = ''X-Api-Key'', hvalue = ''k''\<rparr>]
     = \<lparr>atype = bearer, avalue = Some ''abc123''\<rparr>"
    by (rule detectAuthType_example)
next
  assume a: "(\<forall>x \<in> set (pre @ h # post). toLowerCase (key x) \<noteq> ''authorization'') \<and>
      (\<forall>x \<in> set pre. classifyHeader x = None) \<and>
      (includes_str (toLowerCase (key h)) ''api-key'' \<or>
       includes_str (toLowerCase (key h)) ''apikey'')"
  then have "detectAuthType (pre @ h # post) = detectAuthType (h # post)"
    by (simp add: detectAuthType_skip)
  also from a have "\<dots> = \<lparr>atype = apikey, avalue = Some (hvalue h)\<rparr>"
    by (simp only: detectAuthType_Cons classifyHeader_apikey option.case)
  finally show "detectAuthType (pre @ h # post) = \<lparr>atype = apikey, avalue = Some (hvalue h)\<rparr>" .
qed

theorem C1_detectAuthType_first_match_witness:
  "classifyHeader \<lparr>key = ''Accept'', hvalue = ''*/*''\<rparr> = None
   \<and> includes_str (toLowerCase ''X-Api-Key'') ''api-key''
   \<and> detectAuthType
       [\<lparr>key = ''Accept'', hvalue = ''*/*''\<rparr>,
        \<lparr>key = ''X-Api-Key'', hvalue = ''k''\<rparr>,
        \<lparr>key = ''Cookie'', hvalue = ''sid=1''\<rparr>]
     = \<lparr>atype = apikey, avalue = Some ''k''\<rparr>"
proof -
  have n: "classifyHeader \<lparr>key = ''Accept'', hvalue = ''*/*''\<rparr> = None"
    by code_simp
  have k: "includes_str (toLowerCase ''X-Api-Key'') ''api-key''"
    by code_simp
  have l: "toLowerCase ''Accept'' \<noteq> ''authorization''"
    "toLowerCase ''X-Api-Key'' \<noteq> ''authorization''"
    "toLowerCase ''Cookie'' \<noteq> ''authorization''"
    by code_simp+
  have "detectAuthType
       ([\<lparr>key = ''Accept'', hvalue = ''*/*''\<rparr>] @
        \<lparr>key = ''X-Api-Key'', hvalue = ''k''\<rparr> #
        [\<lparr>key = ''Cookie'', hvalue = ''sid=1''\<rparr>])
     = \<lparr>atype = apikey, avalue = Some (hvalue \<lparr>key = ''X-Api-Key'', hvalue = ''k''\<rparr>)\<rparr>"
    using n k l
    by (intro C1_detectAuthType_first_match [THEN conjunct2, THEN conjunct2, rule_format]) simp
  with n k show ?thesis by simp
qed


section \<open>Properties of the normaliser\<close>

lemma stripInput_slash: "\<exists>q. stripInput (CHR ''/'' # p) = CHR ''/'' # q"
proof -
  have a: "dropWhile isC0ControlOrSpace (CHR ''/'' # p) = CHR ''/'' # p"
    by (simp add: isC0ControlOrSpace_def code_def)
  have "\<exists>zs. dropWhile isC0ControlOrSpace (rev p @ [CHR ''/'']) = zs @ [CHR ''/'']"
    by (simp add: dropWhile_append isC0ControlOrSpace_def code_def)
  then obtain zs where "dropWhile isC0ControlOrSpace (rev (CHR ''/'' # p)) = zs @ [CHR ''/'']"
    by auto
  with a show ?thesis
    by (simp add: stripInput_def isTabOrNewline_def code_def)
qed

text \<open>A string that starts with a slash has no scheme, and neither has the empty
  string: the constructor throws on both.\<close>

lemma parseURL_slash: "parseURL (CHR ''/'' # p) = None"
proof -
  obtain q where "stripInput (CHR ''/'' # p) = CHR ''/'' # q"
    using stripInput_slash by blast
  then show ?thesis
    by (simp add: parseURL_def parseScheme_def isAsciiAlpha_def code_def)
qed

lemma parseURL_empty: "parseURL [] = None"
  by (simp add: parseURL_def parseScheme_def stripInput_def)

lemma replaceWithId_slash: "\<exists>q. replaceWithId body (CHR ''/'' # p) = CHR ''/'' # q"
  by (cases "body p") simp_all

lemma pathname_ListPath: "path urlObj = ListPath segs \<Longrightarrow> isPattern (pathname urlObj)"
  by (cases segs) (simp_all add: pathname_def isPattern_def)

lemma replaceWithId_pattern: "isPattern s \<Longrightarrow> isPattern (replaceWithId body s)"
  unfolding isPattern_def using replaceWithId_slash [of body] by auto

lemma normalizeUrl_pattern: "isPattern s \<Longrightarrow> normalizeUrl s = s"
  unfolding isPattern_def normalizeUrl_def using parseURL_slash parseURL_empty by auto

lemma normalizeUrl_unparseable: "parseURL u = None \<Longrightarrow> normalizeUrl u = u"
  by (simp add: normalizeUrl_def)

lemma normalizeUrl_ListPath:
  assumes "parseURL u = Some urlObj" and "path urlObj = ListPath segs"
  shows "isPattern (normalizeUrl u)"
proof -
  have "isPattern (pathname urlObj)"
    using assms(2) by (rule pathname_ListPath)
  then show ?thesis
    using assms(1) by (simp add: normalizeUrl_def replaceWithId_pattern)
qed

text \<open>Every URL with a special scheme (http, https, ws, wss, ftp, file) has a path
  that is a list of segments.\<close>

lemma special_ListPath:
  "parseURL u = Some urlObj \<Longrightarrow> isSpecial (scheme urlObj) \<Longrightarrow> \<exists>segs. path urlObj = ListPath segs"
  by (auto simp add: parseURL_def authorityState_def fileState_def fileHostState_def Let_def
      split: option.splits if_splits list.splits prod.splits)

text \<open>The first two examples of the docstring, for the paths of absolute URLs.\<close>

lemma normalizeUrl_examples:
  "normalizeUrl ''https://api.x.com/api/users/123'' = ''/api/users/:id''"
  "normalizeUrl ''https://api.x.com/api/users/abc-123-def/posts/456''
     = ''/api/users/:id/posts/:id''"
  by code_simp+

text \<open>
  Claim C2, at the inputs where the program departs from it. The claim and the docstring
  of \<open>normalizeUrl\<close> give \<open>/api/products/:id\<close> for the path
  \<open>/api/products/550e8400-e29b-41d4-a716-446655440000\<close>; the program returns
  \<open>/api/:id/:id\<close>, because the eight letters of \<open>products\<close> match the third expression.
  The claim lets a segment of 24 hexadecimal characters become \<open>:id\<close>; for the segment
  \<open>507f1f77bcf86cd799439011\<close> the program returns \<open>:idf1f77bcf86cd799439011\<close>, because
  the second expression has replaced the leading digits before the third and the
  fourth are tried.
\<close>

theorem C2_normalizeUrl_departs_from_docstring:
  "normalizeUrl ''https://api.x.com/api/products/550e8400-e29b-41d4-a716-446655440000''
     = ''/api/:id/:id''
   \<and> normalizeUrl ''https://api.x.com/items/507f1f77bcf86cd799439011''
     = ''/items/:idf1f77bcf86cd799439011''"
  by code_simp

text \<open>
  Claim C3 as stated, idempotence for every string, fails: a URL with an opaque path
  has a \<open>pathname\<close> that can itself be an absolute URL. The blob URL below is normalised
  to \<open>https://example.com/:id\<close>, and that string to \<open>/:id\<close>.
\<close>

theorem C3_normalizeUrl_not_idempotent:
  "normalizeUrl (normalizeUrl ''blob:https://example.com/123'')
     \<noteq> normalizeUrl ''blob:https://example.com/123''"
  by code_simp

text \<open>
  Claim C3, amended. For every string that the URL constructor rejects, and for every
  string that parses to a URL whose path is a list of segments (every http, https, ws,
  wss, ftp and file URL, by \<open>special_ListPath\<close>), normalising the result of
  \<open>normalizeUrl\<close> again changes nothing; and a pattern, a string that is empty or starts
  with a slash, is returned as it is.
\<close>

theorem C3_normalizeUrl_idempotent_on_segment_paths:
  "(parseURL u = None \<or> (\<exists>urlObj segs. parseURL u = Some urlObj \<and> path urlObj = ListPath segs)
      \<longrightarrow> normalizeUrl (normalizeUrl u) = normalizeUrl u)
   \<and> (isPattern p \<longrightarrow> normalizeUrl p = p)"
proof (intro conjI impI)
  assume "parseURL u = None \<or> (\<exists>urlObj segs. parseURL u = Some urlObj \<and> path urlObj = ListPath segs)"
  then show "normalizeUrl (normalizeUrl u) = normalizeUrl u"
  proof
    assume "parseURL u = None"
    then show ?thesis by (simp add: normalizeUrl_unparseable)
  next
    assume "\<exists>urlObj segs. parseURL u = Some urlObj \<and> path urlObj = ListPath segs"
    then have "isPattern (normalizeUrl u)"
      using normalizeUrl_ListPath by blast
    then show ?thesis by (rule normalizeUrl_pattern)
  qed
next
  assume "isPattern p"
  then show "normalizeUrl p = p" by (rule normalizeUrl_pattern)
qed

theorem C3_normalizeUrl_idempotent_on_segment_paths_witness:
  "parseURL ''https://api.x.com/items/42''
     = Some \<lparr>scheme = ''https'', uhost = Some ''api.x.com'', port = None,
              path = ListPath [''items'', ''42'']\<rparr>
   \<and> normalizeUrl (normalizeUrl ''https://api.x.com/items/42'')
     = normalizeUrl ''https://api.x.com/items/42''
   \<and> isPattern ''/items/:id'' \<and> normalizeUrl ''/items/:id'' = ''/items/:id''"
proof -
  have a: "parseURL ''https://api.x.com/items/42''
     = Some \<lparr>scheme = ''https'', uhost = Some ''api.x.com'', port = None,
              path = ListPath [''items'', ''42'']\<rparr>"
    by code_simp
  have b: "isPattern ''/items/:id''"
    by (simp add: isPattern_def)
  have "normalizeUrl (normalizeUrl ''https://api.x.com/items/42'')
     = normalizeUrl ''https://api.x.com/items/42''"
    by (rule C3_normalizeUrl_idempotent_on_segment_paths
        [THEN conjunct1, rule_format]) (simp add: a)
  moreover have "normalizeUrl ''/items/:id'' = ''/items/:id''"
    using b by (rule C3_normalizeUrl_idempotent_on_segment_paths
        [THEN conjunct2, rule_format])
  ultimately show ?thesis using a b by simp
qed


section \<open>Properties of the matcher\<close>

lemma find_append:
  "List.find P (xs @ ys) =
     (case List.find P xs of None \<Rightarrow> List.find P ys | Some x \<Rightarrow> Some x)"
  by (induction xs) simp_all

lemma find_skip:
  "\<forall>x \<in> set xs. \<not> P x \<Longrightarrow> P y \<Longrightarrow> List.find P (xs @ y # ys) = Some y"
  by (induction xs) simp_all

lemma findMatchingRequest_step:
  "findMatchingRequest u (Item n ch rq # rest) =
     (case (case ch of Some children \<Rightarrow> findMatchingRequest u children | None \<Rightarrow> None) of
        Some m \<Rightarrow> Some m
      | None \<Rightarrow>
          if rq \<noteq> None \<and> samePattern u (Item n ch rq) then Some (Item n ch rq)
          else findMatchingRequest u rest)"
  by (auto simp add: samePattern_def extractedUrl_def normalizeUrlArg_def
      split: option.splits sum.splits)

lemma findMatchingRequest_find:
  "findMatchingRequest u items = List.find (samePattern u) (candidates items)"
proof (induction items rule: candidates.induct)
  case 1
  show ?case by simp
next
  case (2 n ch rq rest)
  have c: "(case ch of Some children \<Rightarrow> findMatchingRequest u children | None \<Rightarrow> None)
        = List.find (samePattern u)
            (case ch of Some children \<Rightarrow> candidates children | None \<Rightarrow> [])"
    using 2(1) by (cases ch) simp_all
  have s: "List.find (samePattern u) (case rq of Some r \<Rightarrow> [Item n ch rq] | None \<Rightarrow> [])
        = (if rq \<noteq> None \<and> samePattern u (Item n ch rq) then Some (Item n ch rq) else None)"
    by (cases rq) simp_all
  show ?case
    unfolding findMatchingRequest_step candidates.simps find_append c s 2(2)
    by (auto split: option.splits)
qed

lemma searchRecursiveMethod_step:
  "searchRecursiveMethod (normalizeUrl u) m (Item n ch rq # rest) =
     (case (case ch of
              Some children \<Rightarrow> searchRecursiveMethod (normalizeUrl u) m children
            | None \<Rightarrow> None) of
        Some x \<Rightarrow> Some x
      | None \<Rightarrow>
          if rq \<noteq> None \<and> samePatternAndMethod u m (Item n ch rq) then Some (Item n ch rq)
          else searchRecursiveMethod (normalizeUrl u) m rest)"
  by (auto simp add: samePatternAndMethod_def samePattern_def extractedUrl_def
      normalizeUrlArg_def leafMethod_def split: option.splits sum.splits)

lemma findMatchingRequestWithMethod_find:
  "findMatchingRequestWithMethod u m items
     = List.find (samePatternAndMethod u m) (candidates items)"
  unfolding findMatchingRequestWithMethod_def
proof (induction items rule: candidates.induct)
  case 1
  show ?case by simp
next
  case (2 n ch rq rest)
  have c: "(case ch of
              Some children \<Rightarrow> searchRecursiveMethod (normalizeUrl u) m children
            | None \<Rightarrow> None)
        = List.find (samePatternAndMethod u m)
            (case ch of Some children \<Rightarrow> candidates children | None \<Rightarrow> [])"
    using 2(1) by (cases ch) simp_all
  have s: "List.find (samePatternAndMethod u m)
             (case rq of Some r \<Rightarrow> [Item n ch rq] | None \<Rightarrow> [])
        = (if rq \<noteq> None \<and> samePatternAndMethod u m (Item n ch rq)
           then Some (Item n ch rq) else None)"
    by (cases rq) simp_all
  show ?case
    unfolding searchRecursiveMethod_step candidates.simps find_append c s 2(2)
    by (auto split: option.splits)
qed

lemma candidates_preorder:
  "folderOrLeaf items \<Longrightarrow> candidates items = filter isLeaf (preorder items)"
  by (induction items rule: candidates.induct) (auto simp add: isLeaf_def split: option.splits)

lemma toUpperCase_empty: "toUpperCase s = [] \<longleftrightarrow> s = []"
  by (cases s) (simp_all add: toUpperCase_def toUpperChar_def Let_def)

lemma exampleTree_pattern:
  "findMatchingRequest ''https://api.x.com/items/99'' exampleTree = Some leafItems42"
  by code_simp

lemma exampleTree_method:
  "findMatchingRequestWithMethod ''https://api.x.com/items/99'' ''POST'' exampleTree = None"
  by code_simp

text \<open>
  Claim C4. In a document whose nodes are folders or leaf requests, the pattern-only
  matcher returns the first leaf, in depth-first pre-order over the order of the
  children, whose normalised URL equals the normalised captured URL, and nothing when
  there is no such leaf. A leaf whose URL cannot be extracted does not match and the
  search goes on behind it. In the example document the captured URL
  \<open>https://api.x.com/items/99\<close> finds the leaf with the URL
  \<open>https://api.x.com/items/42\<close>. The matcher with a method returns only a leaf
  whose method, in capitals, is the queried method in capitals (GET for a leaf that
  states none), so never a leaf that states a method different from the queried one up
  to case; for the example leaf and the method POST it returns nothing.
\<close>

theorem C4_findMatchingRequest_first_leaf:
  "(folderOrLeaf items \<longrightarrow>
      findMatchingRequest u items
        = List.find (\<lambda>leaf. map_option normalizeUrl (extractedUrl leaf) = Some (normalizeUrl u))
            (filter isLeaf (preorder items)))
   \<and> findMatchingRequest ''https://api.x.com/items/99'' exampleTree = Some leafItems42
   \<and> (findMatchingRequestWithMethod u m items = Some leaf \<longrightarrow>
        toUpperCase m = leafMethod leaf)
   \<and> (request leaf = Some r \<and> httpMethod r = Some lm \<and> lm \<noteq> [] \<and>
      toUpperCase m \<noteq> toUpperCase lm \<longrightarrow>
        findMatchingRequestWithMethod u m items \<noteq> Some leaf)
   \<and> findMatchingRequestWithMethod ''https://api.x.com/items/99'' ''POST'' exampleTree = None"
proof (intro conjI impI)
  assume "folderOrLeaf items"
  then have "candidates items = filter isLeaf (preorder items)"
    by (rule candidates_preorder)
  moreover have "samePattern u
      = (\<lambda>leaf. map_option normalizeUrl (extractedUrl leaf) = Some (normalizeUrl u))"
    by (rule ext) (simp add: samePattern_def)
  ultimately show "findMatchingRequest u items
        = List.find (\<lambda>leaf. map_option normalizeUrl (extractedUrl leaf) = Some (normalizeUrl u))
            (filter isLeaf (preorder items))"
    by (simp add: findMatchingRequest_find)
next
  show "findMatchingRequest ''https://api.x.com/items/99'' exampleTree = Some leafItems42"
    by (rule exampleTree_pattern)
next
  assume "findMatchingRequestWithMethod u m items = Some leaf"
  then have "List.find (samePatternAndMethod u m) (candidates items) = Some leaf"
    by (simp add: findMatchingRequestWithMethod_find)
  then have "samePatternAndMethod u m leaf"
    by (auto simp add: find_Some_iff)
  then show "toUpperCase m = leafMethod leaf"
    by (simp add: samePatternAndMethod_def)
next
  assume a: "request leaf = Some r \<and> httpMethod r = Some lm \<and> lm \<noteq> [] \<and>
      toUpperCase m \<noteq> toUpperCase lm"
  then have "leafMethod leaf = toUpperCase lm"
    by (simp add: leafMethod_def postmanMethod_def toUpperCase_empty)
  with a have "\<not> samePatternAndMethod u m leaf"
    by (simp add: samePatternAndMethod_def)
  then show "findMatchingRequestWithMethod u m items \<noteq> Some leaf"
    by (auto simp add: findMatchingRequestWithMethod_find find_Some_iff)
next
  show "findMatchingRequestWithMethod ''https://api.x.com/items/99'' ''POST'' exampleTree = None"
    by (rule exampleTree_method)
qed

theorem C4_findMatchingRequest_first_leaf_witness:
  "folderOrLeaf exampleTree
   \<and> findMatchingRequest ''https://api.x.com/items/99'' exampleTree
     = List.find (\<lambda>leaf. map_option normalizeUrl (extractedUrl leaf)
                          = Some (normalizeUrl ''https://api.x.com/items/99''))
         (filter isLeaf (preorder exampleTree))
   \<and> findMatchingRequestWithMethod ''https://api.x.com/items/99'' ''get'' exampleTree
     = Some leafItems42
   \<and> toUpperCase ''get'' = leafMethod leafItems42"
proof -
  have a: "folderOrLeaf exampleTree"
    by (simp add: exampleTree_def leafItems42_def)
  have b: "findMatchingRequestWithMethod ''https://api.x.com/items/99'' ''get'' exampleTree
     = Some leafItems42"
    by code_simp
  note t = C4_findMatchingRequest_first_leaf
    [of exampleTree "''https://api.x.com/items/99''" "''get''" leafItems42]
  from t a have "findMatchingRequest ''https://api.x.com/items/99'' exampleTree
     = List.find (\<lambda>leaf. map_option normalizeUrl (extractedUrl leaf)
                          = Some (normalizeUrl ''https://api.x.com/items/99''))
         (filter isLeaf (preorder exampleTree))"
    by blast
  moreover from t b have "toUpperCase ''get'' = leafMethod leafItems42"
    by blast
  ultimately show ?thesis using a b by blast
qed

text \<open>
  Claim C9. A leaf whose request states no method counts as a GET request in the search
  by pattern and method: when the captured method is GET in capitals and the normalised
  URLs are equal, the leaf matches; the matcher returns it when it is the first item of
  the list, and, wherever it stands in the document, when no item tested before it
  matches.
\<close>

theorem C9_missing_method_is_GET:
  "(httpMethod r = None \<and> toUpperCase m = ''GET'' \<and> samePattern u (Item n None (Some r)) \<longrightarrow>
      findMatchingRequestWithMethod u m (Item n None (Some r) # rest)
        = Some (Item n None (Some r)))
   \<and> (request leaf = Some r \<and> httpMethod r = None \<and> toUpperCase m = ''GET'' \<and>
      samePattern u leaf \<and> candidates items = before @ leaf # after \<and>
      (\<forall>c \<in> set before. \<not> samePatternAndMethod u m c) \<longrightarrow>
      findMatchingRequestWithMethod u m items = Some leaf)"
proof (intro conjI impI)
  assume a: "httpMethod r = None \<and> toUpperCase m = ''GET'' \<and> samePattern u (Item n None (Some r))"
  then have "samePatternAndMethod u m (Item n None (Some r))"
    by (simp add: samePatternAndMethod_def leafMethod_def postmanMethod_def)
  then show "findMatchingRequestWithMethod u m (Item n None (Some r) # rest)
        = Some (Item n None (Some r))"
    by (simp add: findMatchingRequestWithMethod_find)
next
  assume a: "request leaf = Some r \<and> httpMethod r = None \<and> toUpperCase m = ''GET'' \<and>
      samePattern u leaf \<and> candidates items = before @ leaf # after \<and>
      (\<forall>c \<in> set before. \<not> samePatternAndMethod u m c)"
  then have "samePatternAndMethod u m leaf"
    by (simp add: samePatternAndMethod_def leafMethod_def postmanMethod_def)
  with a show "findMatchingRequestWithMethod u m items = Some leaf"
    by (simp add: findMatchingRequestWithMethod_find find_skip)
qed

theorem C9_missing_method_is_GET_witness:
  "toUpperCase ''get'' = ''GET''
   \<and> samePattern ''https://api.x.com/items/99'' leafNoMethod
   \<and> findMatchingRequestWithMethod ''https://api.x.com/items/99'' ''get''
       (leafNoMethod # exampleTree) = Some leafNoMethod"
proof -
  have a: "toUpperCase ''get'' = ''GET''"
    by code_simp
  have b: "samePattern ''https://api.x.com/items/99'' leafNoMethod"
    by code_simp
  have "findMatchingRequestWithMethod ''https://api.x.com/items/99'' ''get''
       (Item ''Item'' None
          (Some \<lparr>httpMethod = None, header = [],
                 url = Some (UrlString ''https://api.x.com/items/42'')\<rparr>) # exampleTree)
     = Some (Item ''Item'' None
          (Some \<lparr>httpMethod = None, header = [],
                 url = Some (UrlString ''https://api.x.com/items/42'')\<rparr>))"
    using a b
    by (intro C9_missing_method_is_GET [THEN conjunct1, rule_format])
      (simp add: leafNoMethod_def)
  with a b show ?thesis by (simp add: leafNoMethod_def)
qed


section \<open>Properties of the buffer\<close>

lemma buffer_onBeforeSendHeaders:
  "capturedRequests (onBeforeSendHeaders d now rnd s) =
     (if admitted d
      then (if 100 < length (buildCapturedRequest d now rnd # capturedRequests s)
            then butlast (buildCapturedRequest d now rnd # capturedRequests s)
            else buildCapturedRequest d now rnd # capturedRequests s)
      else capturedRequests s)"
  by (auto simp add: onBeforeSendHeaders_def admitted_def Let_def MAX_REQUESTS_def
      split: option.splits)

lemma unshift_pop_take:
  "(if 100 < length (r # take 100 xs) then butlast (r # take 100 xs) else r # take 100 xs)
     = take 100 (r # xs)"
proof (cases "100 \<le> length xs")
  case True
  then have "butlast (take 100 xs) = take 99 xs"
    by (simp add: butlast_take)
  with True show ?thesis by (auto simp add: take_Cons')
next
  case False
  then show ?thesis by simp
qed

lemma recorded_append: "recorded (es @ fs) = recorded es @ recorded fs"
  by (induction es rule: recorded.induct) simp_all

lemma buffer_step:
  assumes "e \<noteq> ClearRequests" and "capturedRequests s = take 100 xs"
  shows "capturedRequests (step s e) = take 100 (rev (recorded [e]) @ xs)"
proof (cases e)
  case (BeforeSendHeaders d now rnd)
  have "capturedRequests (step s e) =
     (if admitted d then take 100 (buildCapturedRequest d now rnd # xs) else take 100 xs)"
    by (simp only: BeforeSendHeaders step.simps buffer_onBeforeSendHeaders assms(2)
        unshift_pop_take)
  also have "\<dots> = take 100 (rev (recorded [e]) @ xs)"
    by (cases "admitted d")
      (simp_all only: BeforeSendHeaders recorded.simps rev.simps append_Nil append_Cons
        if_True if_False)
  finally show ?thesis .
next
  case (SyncCompleted ok)
  then show ?thesis
    using assms(2) by (simp add: syncCompleted_def incrementSyncedCount_def)
next
  case ClearRequests
  with assms(1) show ?thesis by simp
next
  case (StartCapture h cid cb)
  then show ?thesis using assms(2) by (simp add: startCapture_def)
next
  case StopCapture
  then show ?thesis using assms(2) by (simp add: stopCapture_def Let_def)
qed

lemma buffer_run:
  "ClearRequests \<notin> set events \<Longrightarrow> capturedRequests s = take 100 xs \<Longrightarrow>
   capturedRequests (run events s) = take 100 (rev (recorded events) @ xs)"
proof (induction events arbitrary: s xs)
  case Nil
  then show ?case by (simp add: run_def)
next
  case (Cons e events)
  from Cons.prems have "capturedRequests (step s e) = take 100 (rev (recorded [e]) @ xs)"
    by (intro buffer_step) auto
  with Cons.prems(1)
  have "capturedRequests (run events (step s e))
      = take 100 (rev (recorded events) @ rev (recorded [e]) @ xs)"
    by (intro Cons.IH) auto
  moreover have "recorded (e # events) = recorded [e] @ recorded events"
    using recorded_append [of "[e]" events] by simp
  ultimately show ?case by (simp add: run_def)
qed

lemma buffer_bound_step:
  "length (capturedRequests s) \<le> 100 \<Longrightarrow> length (capturedRequests (step s e)) \<le> 100"
  by (cases e)
    (auto simp add: buffer_onBeforeSendHeaders syncCompleted_def incrementSyncedCount_def
      clearCapturedRequests_def startCapture_def stopCapture_def Let_def)

lemma buffer_bound_run:
  "length (capturedRequests s) \<le> 100 \<Longrightarrow> length (capturedRequests (run events s)) \<le> 100"
  unfolding run_def
  by (induction events arbitrary: s) (simp_all add: buffer_bound_step)

lemma buffer_from_initial:
  "ClearRequests \<notin> set events \<Longrightarrow>
   capturedRequests (run events initialState) = take 100 (rev (recorded events))"
  using buffer_run [of events initialState "[]"] by (simp add: initialState_def)

lemma recorded_admitted:
  "admitted d \<Longrightarrow>
   recorded (map (\<lambda>i. BeforeSendHeaders d (f i) (g i)) is)
     = map (\<lambda>i. buildCapturedRequest d (f i) (g i)) is"
  by (induction "is") simp_all

text \<open>
  Claim C5. In every state reached from the empty buffer, by any events, the buffer
  holds at most 100 requests. As long as the buffer is not cleared it holds the 100
  most recent of the recorded requests, the newest first; recording into a full buffer
  puts the new request in front and drops the last, the oldest, one. After 150 recorded
  requests the buffer holds exactly 100: the requests 51 to 150, the newest first.
\<close>

theorem C5_buffer_bounded_newest_first:
  "length (capturedRequests (run events initialState)) \<le> 100
   \<and> (ClearRequests \<notin> set events \<longrightarrow>
        capturedRequests (run events initialState) = take 100 (rev (recorded events)))
   \<and> (admitted d \<and> length (capturedRequests s) = 100 \<longrightarrow>
        capturedRequests (onBeforeSendHeaders d now rnd s)
          = buildCapturedRequest d now rnd # butlast (capturedRequests s))
   \<and> (ClearRequests \<notin> set events \<and> length (recorded events) = 150 \<longrightarrow>
        capturedRequests (run events initialState) = rev (drop 50 (recorded events)) \<and>
        length (capturedRequests (run events initialState)) = 100)"
proof (intro conjI impI)
  show "length (capturedRequests (run events initialState)) \<le> 100"
    by (rule buffer_bound_run) (simp add: initialState_def)
next
  assume "ClearRequests \<notin> set events"
  then show "capturedRequests (run events initialState) = take 100 (rev (recorded events))"
    by (rule buffer_from_initial)
next
  assume "admitted d \<and> length (capturedRequests s) = 100"
  then show "capturedRequests (onBeforeSendHeaders d now rnd s)
          = buildCapturedRequest d now rnd # butlast (capturedRequests s)"
    by (auto simp add: buffer_onBeforeSendHeaders)
next
  assume a: "ClearRequests \<notin> set events \<and> length (recorded events) = 150"
  then have "capturedRequests (run events initialState) = take 100 (rev (recorded events))"
    by (simp add: buffer_from_initial)
  also from a have "\<dots> = rev (drop 50 (recorded events))"
    by (simp add: take_rev)
  finally show "capturedRequests (run events initialState) = rev (drop 50 (recorded events))" .
  with a show "length (capturedRequests (run events initialState)) = 100"
    by simp
qed

theorem C5_buffer_bounded_newest_first_witness:
  "admitted (exampleDetails ''https://api.h.com/items/1'')
   \<and> capturedRequests
       (run (map (\<lambda>i. BeforeSendHeaders (exampleDetails ''https://api.h.com/items/1'') i ''r'')
               [0 ..< 150]) initialState)
     = map (\<lambda>i. buildCapturedRequest (exampleDetails ''https://api.h.com/items/1'') i ''r'')
         (rev [50 ..< 150])
   \<and> length (capturedRequests
       (run (map (\<lambda>i. BeforeSendHeaders (exampleDetails ''https://api.h.com/items/1'') i ''r'')
               [0 ..< 150]) initialState)) = 100"
proof -
  let ?d = "exampleDetails ''https://api.h.com/items/1''"
  let ?events = "map (\<lambda>i. BeforeSendHeaders ?d i ''r'') [0 ..< 150]"
  have a: "admitted ?d"
    by code_simp
  have r: "recorded ?events = map (\<lambda>i. buildCapturedRequest ?d i ''r'') [0 ..< 150]"
    using a by (rule recorded_admitted)
  have c: "ClearRequests \<notin> set ?events"
    by auto
  have l: "length (recorded ?events) = 150"
    by (simp add: r)
  from c l have "capturedRequests (run ?events initialState) = rev (drop 50 (recorded ?events))
      \<and> length (capturedRequests (run ?events initialState)) = 100"
    by (intro C5_buffer_bounded_newest_first
        [THEN conjunct2, THEN conjunct2, THEN conjunct2, rule_format]) simp
  then show ?thesis
    using a by (simp add: r drop_map rev_map)
qed

section \<open>Properties of the capture session\<close>

lemma reqUrl_build: "reqUrl (buildCapturedRequest d now rnd) = detUrl d"
  by (simp add: buildCapturedRequest_def Let_def)

lemma session_onBeforeSendHeaders:
  assumes "armed h cid cb k j s"
  shows "armed h cid cb (k + length (filter (hostIs h) (recorded [BeforeSendHeaders d now rnd]))) j
           (onBeforeSendHeaders d now rnd s)
       \<and> invoked (onBeforeSendHeaders d now rnd s)
         = invoked s @ map (Pair cb) (filter (hostIs h) (recorded [BeforeSendHeaders d now rnd]))"
  using assms
  by (auto simp add: armed_def onBeforeSendHeaders_def admitted_def hostIs_def Let_def
      reqUrl_build split: option.splits)

lemma session_step:
  assumes "isCaptureOrSync e" and "armed h cid cb k j s"
  shows "armed h cid cb (k + length (filter (hostIs h) (recorded [e])))
           (j + successfulSyncs [e]) (step s e)
       \<and> invoked (step s e) = invoked s @ map (Pair cb) (filter (hostIs h) (recorded [e]))"
proof (cases e)
  case (BeforeSendHeaders d now rnd)
  then show ?thesis
    using session_onBeforeSendHeaders [OF assms(2), of d now rnd]
    by (simp add: successfulSyncs_def)
next
  case (SyncCompleted ok)
  then show ?thesis
    using assms(2)
    by (cases ok)
      (simp_all add: armed_def syncCompleted_def incrementSyncedCount_def successfulSyncs_def)
qed (use assms(1) in simp_all)

lemma successfulSyncs_Cons:
  "successfulSyncs (e # events) = successfulSyncs [e] + successfulSyncs events"
  by (simp add: successfulSyncs_def)

lemma session_run:
  "list_all isCaptureOrSync events \<Longrightarrow> armed h cid cb k j s \<Longrightarrow>
   armed h cid cb (k + length (filter (hostIs h) (recorded events)))
     (j + successfulSyncs events) (run events s)
   \<and> invoked (run events s) = invoked s @ map (Pair cb) (filter (hostIs h) (recorded events))"
proof (induction events arbitrary: k j s)
  case Nil
  then show ?case by (simp add: run_def successfulSyncs_def)
next
  case (Cons e events)
  from Cons.prems have e: "isCaptureOrSync e" and es: "list_all isCaptureOrSync events"
    by simp_all
  note st = session_step [OF e Cons.prems(2)]
  note ih = Cons.IH [OF es st [THEN conjunct1]]
  have r: "recorded (e # events) = recorded [e] @ recorded events"
    using recorded_append [of "[e]" events] by simp
  have ru: "run (e # events) s = run events (step s e)"
    by (simp add: run_def)
  show ?case
    unfolding ru r successfulSyncs_Cons [of e events]
    using ih st by (simp add: add.assoc)
qed

lemma armed_startCapture: "armed h cid cb 0 0 (startCapture h cid cb s)"
  by (simp add: armed_def startCapture_def)

lemma invoked_startCapture: "invoked (startCapture h cid cb s) = invoked s"
  by (simp add: startCapture_def)

lemma stopCapture_armed:
  "armed h cid cb k j s \<Longrightarrow>
   fst (stopCapture s) =
     \<lparr>isCapturing = True, targetHost = Some h, collectionId = Some cid,
      capturedCount = k, syncedCount = j\<rparr>
   \<and> captureState (snd (stopCapture s)) = idleState
   \<and> onCaptureCallback (snd (stopCapture s)) = None"
  by (simp add: armed_def stopCapture_def Let_def)

text \<open>
  Claim C8. A session is armed for the host \<open>h\<close>; then requests are captured and
  upserts end, in any order; then the session is stopped. Every recorded request whose
  URL has the host \<open>h\<close>, and no other, has been handed to the callback, in the order
  of capture; the snapshot that \<open>stopCapture\<close> returns counts these requests in
  \<open>capturedCount\<close> and the successful upserts in \<open>syncedCount\<close>; after the stop the
  session is idle and has no callback. In the example session, three captures for the
  host and two successful upserts give the counts 3 and 2.
\<close>

theorem C8_session_counts:
  "list_all isCaptureOrSync events \<longrightarrow>
     fst (stopCapture (run events (startCapture h cid cb s0)))
       = \<lparr>isCapturing = True, targetHost = Some h, collectionId = Some cid,
          capturedCount = length (filter (hostIs h) (recorded events)),
          syncedCount = successfulSyncs events\<rparr>
     \<and> invoked (run events (startCapture h cid cb s0))
       = invoked s0 @ map (Pair cb) (filter (hostIs h) (recorded events))
     \<and> captureState (snd (stopCapture (run events (startCapture h cid cb s0)))) = idleState
     \<and> onCaptureCallback (snd (stopCapture (run events (startCapture h cid cb s0)))) = None"
proof
  assume "list_all isCaptureOrSync events"
  from session_run [OF this armed_startCapture, of h cid cb s0]
  have a: "armed h cid cb (length (filter (hostIs h) (recorded events)))
             (successfulSyncs events) (run events (startCapture h cid cb s0))"
    and i: "invoked (run events (startCapture h cid cb s0))
       = invoked s0 @ map (Pair cb) (filter (hostIs h) (recorded events))"
    by (simp_all add: invoked_startCapture)
  from stopCapture_armed [OF a] i
  show "fst (stopCapture (run events (startCapture h cid cb s0)))
       = \<lparr>isCapturing = True, targetHost = Some h, collectionId = Some cid,
          capturedCount = length (filter (hostIs h) (recorded events)),
          syncedCount = successfulSyncs events\<rparr>
     \<and> invoked (run events (startCapture h cid cb s0))
       = invoked s0 @ map (Pair cb) (filter (hostIs h) (recorded events))
     \<and> captureState (snd (stopCapture (run events (startCapture h cid cb s0)))) = idleState
     \<and> onCaptureCallback (snd (stopCapture (run events (startCapture h cid cb s0)))) = None"
    by simp
qed

theorem C8_session_counts_witness:
  "list_all isCaptureOrSync exampleSession
   \<and> fst (stopCapture
       (run exampleSession (startCapture ''api.h.com'' ''c1'' (AutoSync ''c1'') initialState)))
     = \<lparr>isCapturing = True, targetHost = Some ''api.h.com'', collectionId = Some ''c1'',
        capturedCount = 3, syncedCount = 2\<rparr>
   \<and> map (\<lambda>(cb, r). (cb, reqUrl r))
       (invoked (run exampleSession
          (startCapture ''api.h.com'' ''c1'' (AutoSync ''c1'') initialState)))
     = [(AutoSync ''c1'', ''https://api.h.com/items/1''),
        (AutoSync ''c1'', ''https://api.h.com/items/3''),
        (AutoSync ''c1'', ''https://api.h.com/users'')]"
proof -
  have a: "list_all isCaptureOrSync exampleSession"
    by (simp add: exampleSession_def)
  have k: "length (filter (hostIs ''api.h.com'') (recorded exampleSession)) = 3"
    by code_simp
  have j: "successfulSyncs exampleSession = 2"
    by code_simp
  have u: "map (\<lambda>(cb, r). (cb, reqUrl r))
       (map (Pair (AutoSync ''c1'')) (filter (hostIs ''api.h.com'') (recorded exampleSession)))
     = [(AutoSync ''c1'', ''https://api.h.com/items/1''),
        (AutoSync ''c1'', ''https://api.h.com/items/3''),
        (AutoSync ''c1'', ''https://api.h.com/users'')]"
    by code_simp
  note t = C8_session_counts
    [rule_format, OF a, of "''api.h.com''" "''c1''" "AutoSync ''c1''" initialState]
  have i: "invoked initialState = []"
    by (simp add: initialState_def)
  from t have c: "fst (stopCapture
       (run exampleSession (startCapture ''api.h.com'' ''c1'' (AutoSync ''c1'') initialState)))
     = \<lparr>isCapturing = True, targetHost = Some ''api.h.com'', collectionId = Some ''c1'',
        capturedCount = 3, syncedCount = 2\<rparr>"
    by (simp add: k j)
  from t have "invoked (run exampleSession
          (startCapture ''api.h.com'' ''c1'' (AutoSync ''c1'') initialState))
     = map (Pair (AutoSync ''c1'')) (filter (hostIs ''api.h.com'') (recorded exampleSession))"
    by (simp add: i)
  then have "map (\<lambda>(cb, r). (cb, reqUrl r))
       (invoked (run exampleSession
          (startCapture ''api.h.com'' ''c1'' (AutoSync ''c1'') initialState)))
     = [(AutoSync ''c1'', ''https://api.h.com/items/1''),
        (AutoSync ''c1'', ''https://api.h.com/items/3''),
        (AutoSync ''c1'', ''https://api.h.com/users'')]"
    by (simp only: u)
  with a c show ?thesis by blast
qed


section \<open>Properties of the orchestrator\<close>

lemma findAllRequestsForHost_filter:
  "findAllRequestsForHost h items = filter (hasHost h) (candidates items)"
  by (induction items rule: candidates.induct)
    (auto simp add: hasHost_def extractedUrl_def parseURLArg_def
      split: option.splits sum.splits)





lemma mutateAll_view:
  "map view (candidates (mutateAll P (withAuthorization v) items))
     = map (\<lambda>x. if P x then view (withAuthorization v x) else view x) (candidates items)"
  by (induction items rule: candidates.induct)
    (auto simp add: Let_def view_def withAuthorization_def split: option.splits)

lemma remoteReady_get:
  assumes "remoteReady env cid c"
  shows "\<exists>hd. getApiHeaders env = Inr hd" and "getCollection env cid = Inr c"
  using assms by (auto simp add: remoteReady_def getApiHeaders_def getCollection_def)

lemma findIndex_Some: "findIndex P xs = Some i \<Longrightarrow> i < length xs \<and> P (xs ! i)"
  by (induction xs arbitrary: i) (auto split: if_splits)

lemma toLowerCase_Authorization: "toLowerCase ''Authorization'' = ''authorization''"
  by code_simp

lemma setAuthorizationHeader_has:
  "\<exists>h \<in> set (setAuthorizationHeader v hs). toLowerCase (key h) = ''authorization'' \<and> hvalue h = v"
proof (cases "findIndex (\<lambda>h. toLowerCase (key h) = ''authorization'') hs")
  case None
  then show ?thesis by (simp add: setAuthorizationHeader_def toLowerCase_Authorization)
next
  case (Some i)
  from findIndex_Some [OF this]
  have i: "i < length hs" and k: "toLowerCase (key (hs ! i)) = ''authorization''"
    by simp_all
  let ?h = "(hs ! i)\<lparr>hvalue := v\<rparr>"
  have "?h \<in> set (hs[i := ?h])"
    using i by (simp add: set_update_memI)
  moreover have "toLowerCase (key ?h) = ''authorization'' \<and> hvalue ?h = v"
    using k by simp
  ultimately have "\<exists>h \<in> set (hs[i := ?h]).
      toLowerCase (key h) = ''authorization'' \<and> hvalue h = v"
    by (rule bexI [rotated])
  then show ?thesis
    by (simp only: setAuthorizationHeader_def Some option.case)
qed






lemma updateTokenForHost_none:
  assumes "remoteReady env cid c" and "findAllRequestsForHost h (itemsOf c) = []"
  shows "updateTokenForHost env cid h v t = (Inl (NoRequestsForHost h), [])"
proof -
  from remoteReady_get [OF assms(1)] obtain hd where
    "getApiHeaders env = Inr hd" and "getCollection env cid = Inr c"
    by blast
  with assms(2) show ?thesis
    by (simp add: updateTokenForHost_def)
qed

lemma updateTokenForHost_writes:
  assumes "remoteReady env cid c" and "findAllRequestsForHost h (itemsOf c) \<noteq> []"
  shows "snd (updateTokenForHost env cid h v t)
     = [(cid, c\<lparr>topItem := Some (mutateAll (hasHost h)
                  (withAuthorization (if t = bearer then ''Bearer '' @ v else v)) (itemsOf c))\<rparr>)]"
proof -
  from assms(2) obtain l where l: "topItem c = Some l"
    by (cases "topItem c") (auto simp add: itemsOf_def)
  from remoteReady_get [OF assms(1)] obtain hd where
    "getApiHeaders env = Inr hd" and "getCollection env cid = Inr c"
    by blast
  with assms(2) l show ?thesis
    by (simp add: updateTokenForHost_def Let_def itemsOf_def split: option.splits)
qed

lemma updateTokenForHost_result:
  assumes "remoteReady env cid c" and "findAllRequestsForHost h (itemsOf c) \<noteq> []"
    and "\<forall>d. putResponse env cid d = None"
  shows "fst (updateTokenForHost env cid h v t)
     = Inr \<lparr>updatedCount = length (findAllRequestsForHost h (itemsOf c)),
            totalMatched = length (findAllRequestsForHost h (itemsOf c)),
            requestNames = map name (findAllRequestsForHost h (itemsOf c))\<rparr>"
proof -
  from remoteReady_get [OF assms(1)] obtain hd where
    "getApiHeaders env = Inr hd" and "getCollection env cid = Inr c"
    by blast
  with assms(2,3) show ?thesis
    by (simp add: updateTokenForHost_def Let_def)
qed







lemma exampleRemote_ready: "remoteReady exampleRemote ''c1'' exampleCollection"
  by (simp add: remoteReady_def exampleRemote_def)

lemma exampleRemote_put: "\<forall>d. putResponse exampleRemote ''c1'' d = None"
  by (simp add: exampleRemote_def)



text \<open>
  Claim C7. With an API key stored and the document fetched: when no request of the
  document has the target host, the operation fails with \<open>NoRequestsForHost\<close> and sends
  no write. Otherwise exactly one write is sent; its body is the fetched document in
  which every request whose URL has the target host has its \<open>Authorization\<close> header
  set to the new value (\<open>Bearer \<close> and the credential for the type bearer) and every
  other request is as it was. Setting the header is replacing the value of the first
  header named \<open>authorization\<close>, in any case, or appending the header \<open>Authorization\<close>
  when there is none; either way the list then holds an \<open>Authorization\<close> header with
  the new value. When the remote store accepts the write, the operation returns the
  number of these requests and their names. The requests found are the requests with
  that host, in the order of the search.
\<close>

theorem C7_updateTokenForHost:
  "(remoteReady env cid c \<longrightarrow>
      (findAllRequestsForHost h (itemsOf c) = [] \<longrightarrow>
         updateTokenForHost env cid h v t = (Inl (NoRequestsForHost h), []))
      \<and> (findAllRequestsForHost h (itemsOf c) \<noteq> [] \<longrightarrow>
           (\<exists>items'.
              snd (updateTokenForHost env cid h v t) = [(cid, c\<lparr>topItem := Some items'\<rparr>)] \<and>
              map view (candidates items')
                = map (\<lambda>x. if hasHost h x
                            then view (withAuthorization
                                         (if t = bearer then ''Bearer '' @ v else v) x)
                            else view x)
                    (candidates (itemsOf c)))
           \<and> ((\<forall>d. putResponse env cid d = None) \<longrightarrow>
                fst (updateTokenForHost env cid h v t)
                  = Inr \<lparr>updatedCount = length (filter (hasHost h) (candidates (itemsOf c))),
                         totalMatched = length (filter (hasHost h) (candidates (itemsOf c))),
                         requestNames = map name (filter (hasHost h) (candidates (itemsOf c)))\<rparr>)))
   \<and> findAllRequestsForHost h items = filter (hasHost h) (candidates items)
   \<and> view (withAuthorization nv x)
       = (name x,
          map_option (\<lambda>r. r\<lparr>header := setAuthorizationHeader nv (header r)\<rparr>) (request x))
   \<and> setAuthorizationHeader nv hs
       = (case findIndex (\<lambda>hd. toLowerCase (key hd) = ''authorization'') hs of
            Some i \<Rightarrow> hs[i := (hs ! i)\<lparr>hvalue := nv\<rparr>]
          | None \<Rightarrow> hs @ [\<lparr>key = ''Authorization'', hvalue = nv\<rparr>])
   \<and> (\<exists>hd \<in> set (setAuthorizationHeader nv hs).
         toLowerCase (key hd) = ''authorization'' \<and> hvalue hd = nv)
   \<and> (hasHost h x \<longrightarrow>
        (\<exists>r. request (withAuthorization nv x) = Some r \<and>
           (\<exists>hd \<in> set (header r). toLowerCase (key hd) = ''authorization'' \<and> hvalue hd = nv)))"
proof (intro conjI impI)
  assume "remoteReady env cid c" and "findAllRequestsForHost h (itemsOf c) = []"
  then show "updateTokenForHost env cid h v t = (Inl (NoRequestsForHost h), [])"
    by (rule updateTokenForHost_none)
next
  assume r: "remoteReady env cid c" and f: "findAllRequestsForHost h (itemsOf c) \<noteq> []"
  let ?nv = "if t = bearer then ''Bearer '' @ v else v"
  let ?items' = "mutateAll (hasHost h) (withAuthorization ?nv) (itemsOf c)"
  have "snd (updateTokenForHost env cid h v t) = [(cid, c\<lparr>topItem := Some ?items'\<rparr>)]"
    by (rule updateTokenForHost_writes [OF r f])
  moreover have "map view (candidates ?items')
      = map (\<lambda>x. if hasHost h x then view (withAuthorization ?nv x) else view x)
          (candidates (itemsOf c))"
    by (rule mutateAll_view)
  ultimately show "\<exists>items'.
              snd (updateTokenForHost env cid h v t) = [(cid, c\<lparr>topItem := Some items'\<rparr>)] \<and>
              map view (candidates items')
                = map (\<lambda>x. if hasHost h x
                            then view (withAuthorization
                                         (if t = bearer then ''Bearer '' @ v else v) x)
                            else view x)
                    (candidates (itemsOf c))"
    by blast
next
  assume r: "remoteReady env cid c" and f: "findAllRequestsForHost h (itemsOf c) \<noteq> []"
    and p: "\<forall>d. putResponse env cid d = None"
  from updateTokenForHost_result [OF r f p, of v t]
  show "fst (updateTokenForHost env cid h v t)
                  = Inr \<lparr>updatedCount = length (filter (hasHost h) (candidates (itemsOf c))),
                         totalMatched = length (filter (hasHost h) (candidates (itemsOf c))),
                         requestNames = map name (filter (hasHost h) (candidates (itemsOf c)))\<rparr>"
    by (simp only: findAllRequestsForHost_filter)
next
  show "findAllRequestsForHost h items = filter (hasHost h) (candidates items)"
    by (rule findAllRequestsForHost_filter)
next
  show "view (withAuthorization nv x)
       = (name x,
          map_option (\<lambda>r. r\<lparr>header := setAuthorizationHeader nv (header r)\<rparr>) (request x))"
    by (cases x) (simp add: view_def withAuthorization_def)
next
  show "setAuthorizationHeader nv hs
       = (case findIndex (\<lambda>hd. toLowerCase (key hd) = ''authorization'') hs of
            Some i \<Rightarrow> hs[i := (hs ! i)\<lparr>hvalue := nv\<rparr>]
          | None \<Rightarrow> hs @ [\<lparr>key = ''Authorization'', hvalue = nv\<rparr>])"
    by (simp add: setAuthorizationHeader_def)
next
  show "\<exists>hd \<in> set (setAuthorizationHeader nv hs).
         toLowerCase (key hd) = ''authorization'' \<and> hvalue hd = nv"
    by (rule setAuthorizationHeader_has)
next
  assume "hasHost h x"
  then obtain rq where rq: "request x = Some rq"
    by (auto simp add: hasHost_def extractedUrl_def split: option.splits)
  then show "\<exists>r. request (withAuthorization nv x) = Some r \<and>
           (\<exists>hd \<in> set (header r). toLowerCase (key hd) = ''authorization'' \<and> hvalue hd = nv)"
    using setAuthorizationHeader_has [of nv "header rq"]
    by (cases x) (simp add: withAuthorization_def)
qed

theorem C7_updateTokenForHost_witness:
  "remoteReady exampleRemote ''c1'' exampleCollection
   \<and> map name (findAllRequestsForHost ''api.h.com'' (itemsOf exampleCollection))
     = [''A'', ''B'', ''D'']
   \<and> map name (findAllRequestsForHost ''api.y.com'' (itemsOf exampleCollection)) = [''C'']
   \<and> fst (updateTokenForHost exampleRemote ''c1'' ''api.h.com'' ''tok'' bearer)
     = Inr \<lparr>updatedCount = 3, totalMatched = 3, requestNames = [''A'', ''B'', ''D'']\<rparr>
   \<and> map (\<lambda>(cid, c). (cid, map view (candidates (itemsOf c))))
       (snd (updateTokenForHost exampleRemote ''c1'' ''api.h.com'' ''tok'' bearer))
     = [(''c1'',
         [(''A'', Some \<lparr>httpMethod = Some ''GET'',
                        header = [\<lparr>key = ''Accept'', hvalue = ''*/*''\<rparr>,
                                  \<lparr>key = ''authorization'', hvalue = ''Bearer tok''\<rparr>],
                        url = Some (UrlString ''https://api.h.com/a'')\<rparr>),
          (''B'', Some \<lparr>httpMethod = Some ''GET'',
                        header = [\<lparr>key = ''Authorization'', hvalue = ''Bearer tok''\<rparr>],
                        url = Some (UrlObject (Some ''https://api.h.com/items/5''))\<rparr>),
          (''C'', Some \<lparr>httpMethod = Some ''POST'', header = [],
                        url = Some (UrlString ''https://api.y.com/items/5'')\<rparr>),
          (''D'', Some \<lparr>httpMethod = None,
                        header = [\<lparr>key = ''X-Trace'', hvalue = ''1''\<rparr>,
                                  \<lparr>key = ''Authorization'', hvalue = ''Bearer tok''\<rparr>],
                        url = Some (UrlString ''https://api.h.com/d'')\<rparr>)])]"
proof -
  have h: "map name (findAllRequestsForHost ''api.h.com'' (itemsOf exampleCollection))
     = [''A'', ''B'', ''D'']"
    by code_simp
  have y: "map name (findAllRequestsForHost ''api.y.com'' (itemsOf exampleCollection)) = [''C'']"
    by code_simp
  from h have ne: "findAllRequestsForHost ''api.h.com'' (itemsOf exampleCollection) \<noteq> []"
    by auto
  note t = C7_updateTokenForHost [THEN conjunct1, rule_format, OF exampleRemote_ready,
      of "''api.h.com''" "''tok''" bearer]
  note e = C7_updateTokenForHost [THEN conjunct2, THEN conjunct1,
      of "''api.h.com''" "itemsOf exampleCollection"]
  from t ne exampleRemote_put
  have "fst (updateTokenForHost exampleRemote ''c1'' ''api.h.com'' ''tok'' bearer)
     = Inr \<lparr>updatedCount =
               length (filter (hasHost ''api.h.com'') (candidates (itemsOf exampleCollection))),
            totalMatched =
               length (filter (hasHost ''api.h.com'') (candidates (itemsOf exampleCollection))),
            requestNames =
               map name (filter (hasHost ''api.h.com'') (candidates (itemsOf exampleCollection)))\<rparr>"
    by blast
  moreover from h e
  have n: "map name (filter (hasHost ''api.h.com'') (candidates (itemsOf exampleCollection)))
      = [''A'', ''B'', ''D'']"
    by simp
  moreover from n
  have "length (filter (hasHost ''api.h.com'') (candidates (itemsOf exampleCollection))) = 3"
    using length_map [of name "filter (hasHost ''api.h.com'')
      (candidates (itemsOf exampleCollection))"] by simp
  ultimately have a: "fst (updateTokenForHost exampleRemote ''c1'' ''api.h.com'' ''tok'' bearer)
     = Inr \<lparr>updatedCount = 3, totalMatched = 3, requestNames = [''A'', ''B'', ''D'']\<rparr>"
    by simp
  from t ne obtain items' where
    w: "snd (updateTokenForHost exampleRemote ''c1'' ''api.h.com'' ''tok'' bearer)
      = [(''c1'', exampleCollection\<lparr>topItem := Some items'\<rparr>)]"
    and v: "map view (candidates items')
      = map (\<lambda>x. if hasHost ''api.h.com'' x
                  then view (withAuthorization
                               (if bearer = bearer then ''Bearer '' @ ''tok'' else ''tok'') x)
                  else view x)
          (candidates (itemsOf exampleCollection))"
    by blast
  have c: "map (\<lambda>x. if hasHost ''api.h.com'' x
                  then view (withAuthorization
                               (if bearer = bearer then ''Bearer '' @ ''tok'' else ''tok'') x)
                  else view x)
          (candidates (itemsOf exampleCollection))
     = [(''A'', Some \<lparr>httpMethod = Some ''GET'',
                        header = [\<lparr>key = ''Accept'', hvalue = ''*/*''\<rparr>,
                                  \<lparr>key = ''authorization'', hvalue = ''Bearer tok''\<rparr>],
                        url = Some (UrlString ''https://api.h.com/a'')\<rparr>),
          (''B'', Some \<lparr>httpMethod = Some ''GET'',
                        header = [\<lparr>key = ''Authorization'', hvalue = ''Bearer tok''\<rparr>],
                        url = Some (UrlObject (Some ''https://api.h.com/items/5''))\<rparr>),
          (''C'', Some \<lparr>httpMethod = Some ''POST'', header = [],
                        url = Some (UrlString ''https://api.y.com/items/5'')\<rparr>),
          (''D'', Some \<lparr>httpMethod = None,
                        header = [\<lparr>key = ''X-Trace'', hvalue = ''1''\<rparr>,
                                  \<lparr>key = ''Authorization'', hvalue = ''Bearer tok''\<rparr>],
                        url = Some (UrlString ''https://api.h.com/d'')\<rparr>)]"
    by code_simp
  from v c have "map view (candidates items')
     = [(''A'', Some \<lparr>httpMethod = Some ''GET'',
                        header = [\<lparr>key = ''Accept'', hvalue = ''*/*''\<rparr>,
                                  \<lparr>key = ''authorization'', hvalue = ''Bearer tok''\<rparr>],
                        url = Some (UrlString ''https://api.h.com/a'')\<rparr>),
          (''B'', Some \<lparr>httpMethod = Some ''GET'',
                        header = [\<lparr>key = ''Authorization'', hvalue = ''Bearer tok''\<rparr>],
                        url = Some (UrlObject (Some ''https://api.h.com/items/5''))\<rparr>),
          (''C'', Some \<lparr>httpMethod = Some ''POST'', header = [],
                        url = Some (UrlString ''https://api.y.com/items/5'')\<rparr>),
          (''D'', Some \<lparr>httpMethod = None,
                        header = [\<lparr>key = ''X-Trace'', hvalue = ''1''\<rparr>,
                                  \<lparr>key = ''Authorization'', hvalue = ''Bearer tok''\<rparr>],
                        url = Some (UrlString ''https://api.h.com/d'')\<rparr>)]"
    by (rule trans)
  with w have "map (\<lambda>(cid, c). (cid, map view (candidates (itemsOf c))))
       (snd (updateTokenForHost exampleRemote ''c1'' ''api.h.com'' ''tok'' bearer))
     = [(''c1'',
         [(''A'', Some \<lparr>httpMethod = Some ''GET'',
                        header = [\<lparr>key = ''Accept'', hvalue = ''*/*''\<rparr>,
                                  \<lparr>key = ''authorization'', hvalue = ''Bearer tok''\<rparr>],
                        url = Some (UrlString ''https://api.h.com/a'')\<rparr>),
          (''B'', Some \<lparr>httpMethod = Some ''GET'',
                        header = [\<lparr>key = ''Authorization'', hvalue = ''Bearer tok''\<rparr>],
                        url = Some (UrlObject (Some ''https://api.h.com/items/5''))\<rparr>),
          (''C'', Some \<lparr>httpMethod = Some ''POST'', header = [],
                        url = Some (UrlString ''https://api.y.com/items/5'')\<rparr>),
          (''D'', Some \<lparr>httpMethod = None,
                        header = [\<lparr>key = ''X-Trace'', hvalue = ''1''\<rparr>,
                                  \<lparr>key = ''Authorization'', hvalue = ''Bearer tok''\<rparr>],
                        url = Some (UrlString ''https://api.h.com/d'')\<rparr>)])]"
    by (simp add: itemsOf_def)
  with a h y exampleRemote_ready show ?thesis by blast
qed



end
